theory Spec2Isabelle
  imports Main "HOL-Library.Sublist"
begin

section \<open>Streaming reconstruction of assistant replies\<close>

text \<open>
  A shallow embedding of \<^verbatim>\<open>src/agents/pi-embedded-subscribe.handlers.messages.ts\<close>:
  the three handlers \<^verbatim>\<open>handleMessageStart\<close>, \<^verbatim>\<open>handleMessageUpdate\<close> and
  \<^verbatim>\<open>handleMessageEnd\<close>, and the local function \<^verbatim>\<open>stripTrailingDirective\<close>.

  A JavaScript string is a \<^typ>\<open>string\<close> (a list of code units; the model covers the code
  units below 256). The mutable \<^verbatim>\<open>ctx.state\<close> is a record that every handler takes and
  returns; whatever a handler sends out (\<^verbatim>\<open>emitAgentEvent\<close>, the callbacks of
  \<^verbatim>\<open>ctx.params\<close>) is returned as a list, in the order of the calls. The methods of
  \<^verbatim>\<open>ctx\<close> and the imported functions are not part of the file; they are the fields of
  an environment record that the handlers take as a parameter. The diagnostics
  (\<^verbatim>\<open>appendRawStream\<close>, \<^verbatim>\<open>ctx.log.debug\<close>) write to a log only, touch neither
  \<^verbatim>\<open>ctx.state\<close> nor an output feed, and are left out.
\<close>

subsection \<open>String primitives of JavaScript\<close>

text \<open>\<^verbatim>\<open>s.startsWith(p)\<close> is \<^term>\<open>prefix p s\<close>, \<^verbatim>\<open>s.includes(p)\<close> is
  \<^term>\<open>sublist p s\<close>, \<^verbatim>\<open>s.slice(n)\<close> is \<^term>\<open>drop n s\<close> and \<^verbatim>\<open>s.slice(0, n)\<close> is
  \<^term>\<open>take n s\<close> (for \<open>0 \<le> n\<close>).\<close>

definition occursAt :: "string \<Rightarrow> string \<Rightarrow> nat \<Rightarrow> bool" where
  "occursAt pat text i = prefix pat (drop i text)"

text \<open>\<^verbatim>\<open>text.indexOf(pat, start)\<close>: the least position from \<open>start\<close> on where \<open>pat\<close>
  occurs, \<open>-1\<close> when there is none.\<close>

definition indexOf :: "string \<Rightarrow> string \<Rightarrow> nat \<Rightarrow> int" where
  "indexOf text pat start =
     (case filter (occursAt pat text) [start ..< Suc (length text)] of
        [] \<Rightarrow> -1
      | i # _ \<Rightarrow> int i)"

text \<open>\<^verbatim>\<open>text.lastIndexOf(pat)\<close>: the greatest position where \<open>pat\<close> occurs, \<open>-1\<close> when
  there is none.\<close>

definition lastIndexOf :: "string \<Rightarrow> string \<Rightarrow> int" where
  "lastIndexOf text pat =
     (case filter (occursAt pat text) (rev [0 ..< Suc (length text)]) of
        [] \<Rightarrow> -1
      | i # _ \<Rightarrow> int i)"

text \<open>The white space and line terminators that \<^verbatim>\<open>trim\<close> removes and \<^verbatim>\<open>\s\<close> matches:
  tab, line feed, vertical tab, form feed, carriage return, space and no-break space.\<close>

definition isJsSpace :: "char \<Rightarrow> bool" where
  "isJsSpace c = (of_char c \<in> {9, 10, 11, 12, 13, 32, 160 :: nat})"

definition trim :: "string \<Rightarrow> string" where
  "trim s = rev (dropWhile isJsSpace (rev (dropWhile isJsSpace s)))"

text \<open>\<^verbatim>\<open>s.replace(/<\s*\/?\s*final\s*>/gi, "")\<close>. \<open>matchFinalTag s\<close> is the number of code
  units that the pattern matches at the head of \<open>s\<close>; the character classes of the pattern
  are disjoint, so the greedy match is the only one.\<close>

definition lowerAscii :: "char \<Rightarrow> char" where
  "lowerAscii c =
     (let n = (of_char c :: nat) in if 65 \<le> n \<and> n \<le> 90 then char_of (n + 32) else c)"

definition matchFinalTag :: "string \<Rightarrow> nat option" where
  "matchFinalTag s =
     (case s of
        [] \<Rightarrow> None
      | c # r \<Rightarrow>
          if c \<noteq> CHR ''<'' then None
          else
            let r1 = dropWhile isJsSpace r;
                r2 = (case r1 of [] \<Rightarrow> r1 | d # t \<Rightarrow> if d = CHR ''/'' then t else r1);
                r3 = dropWhile isJsSpace r2
            in if map lowerAscii (take 5 r3) \<noteq> ''final'' then None
               else
                 (case dropWhile isJsSpace (drop 5 r3) of
                    [] \<Rightarrow> None
                  | e # rest \<Rightarrow>
                      if e = CHR ''>'' then Some (length s - length rest) else None))"

fun removeFinalTagsFrom :: "nat \<Rightarrow> string \<Rightarrow> string" where
  "removeFinalTagsFrom skip [] = []"
| "removeFinalTagsFrom (Suc skip) (c # cs) = removeFinalTagsFrom skip cs"
| "removeFinalTagsFrom 0 (c # cs) =
     (case matchFinalTag (c # cs) of
        Some n \<Rightarrow> removeFinalTagsFrom (n - 1) cs
      | None \<Rightarrow> c # removeFinalTagsFrom 0 cs)"

definition removeFinalTags :: "string \<Rightarrow> string" where
  "removeFinalTags s = removeFinalTagsFrom 0 s"

subsection \<open>stripTrailingDirective\<close>

definition stripTrailingDirective :: "string \<Rightarrow> string" where
  "stripTrailingDirective text =
     (let openIndex = lastIndexOf text ''[[''
      in if openIndex < 0 then text
         else
           let closeIndex = indexOf text '']]'' (nat (openIndex + 2))
           in if closeIndex \<ge> 0 then text
              else take (nat openIndex) text)"

subsection \<open>Data\<close>

text \<open>The result of the directive parser and the payload of a block reply have the same
  fields (\<^verbatim>\<open>text\<close>, \<^verbatim>\<open>mediaUrls\<close>, \<^verbatim>\<open>audioAsVoice\<close>, \<^verbatim>\<open>replyToId\<close>,
  \<^verbatim>\<open>replyToTag\<close>, \<^verbatim>\<open>replyToCurrent\<close>). An absent \<^verbatim>\<open>mediaUrls\<close> or \<^verbatim>\<open>replyToId\<close>
  is \<open>None\<close>; an absent flag reads as \<open>False\<close>, which is how the handlers test it.\<close>

record reply_payload =
  replyText :: string
  mediaUrls :: "string list option"
  audioAsVoice :: bool
  replyToId :: "string option"
  replyToTag :: bool
  replyToCurrent :: bool

text \<open>What a handler sends out: \<^verbatim>\<open>emitAgentEvent\<close> on the stream "assistant" and the
  callbacks \<^verbatim>\<open>onAgentEvent\<close> (each with \<^verbatim>\<open>text\<close>, \<^verbatim>\<open>delta\<close>, \<^verbatim>\<open>mediaUrls\<close>),
  \<^verbatim>\<open>onPartialReply\<close>, \<^verbatim>\<open>onBlockReply\<close>, the reasoning stream and
  \<^verbatim>\<open>onAssistantMessageStart\<close>.\<close>

datatype emission =
    AgentEvent string string "string list option"
  | OnAgentEvent string string "string list option"
  | PartialReply string "string list option"
  | BlockReply reply_payload
  | ReasoningStream string
  | AssistantMessageStart

datatype block_reply_break = TextEnd | MessageEnd

record 'i tag_state =
  thinking :: bool
  final :: bool
  inlineCode :: "'i option"

text \<open>\<^verbatim>\<open>ctx.state\<close>. \<open>ext\<close> stands for what the methods of \<^verbatim>\<open>ctx\<close> keep for themselves
  (the chunker's buffer, the directive accumulators).\<close>

record ('i, 'x) state =
  currentTextContentIndex :: int
  deltaBuffer :: string
  blockBuffer :: string
  cumulativeStreamedText :: string
  lastStreamedAssistant :: "string option"
  lastStreamedAssistantCleaned :: "string option"
  emittedAssistantUpdate :: bool
  partialBlockState :: "'i tag_state"
  blockState :: "'i tag_state"
  streamReasoning :: bool
  includeReasoning :: bool
  shouldEmitPartialReplies :: bool
  blockReplyBreak :: block_reply_break
  assistantTexts :: "string list"
  assistantTextBaseline :: nat
  lastBlockReplyText :: "string option"
  lastReasoningSent :: "string option"
  messagingToolSentTextsNormalized :: "string list"
  ext :: 'x

text \<open>The \<^verbatim>\<open>message_update\<close> event as the handler reads it: \<^verbatim>\<open>message.role\<close>, and of
  \<^verbatim>\<open>assistantMessageEvent\<close> the \<^verbatim>\<open>type\<close> (the empty string when it is not a string)
  and the fields \<^verbatim>\<open>delta\<close>, \<^verbatim>\<open>content\<close> (\<open>None\<close> when not a string) and
  \<^verbatim>\<open>contentIndex\<close> (\<open>None\<close> when not a number).\<close>

record update_event =
  msgRole :: string
  evType :: string
  evDelta :: "string option"
  evContent :: "string option"
  evContentIndex :: "int option"

datatype content_block =
    TextBlock string
  | ThinkingBlock string
  | ToolCallBlock string
  | OtherBlock

record agent_message =
  role :: string
  content :: "content_block list"

text \<open>Which callbacks of \<^verbatim>\<open>ctx.params\<close> are given.\<close>

record params =
  onAgentEvent :: bool
  onPartialReply :: bool
  onBlockReply :: bool
  onAssistantMessageStart :: bool

text \<open>\<^verbatim>\<open>ctx.blockChunker\<close>: \<^verbatim>\<open>append\<close>, \<^verbatim>\<open>drain({force, emit})\<close>, \<^verbatim>\<open>reset\<close> and
  \<^verbatim>\<open>hasBuffered\<close>.\<close>

record ('i, 'x) chunker =
  cAppend :: "string \<Rightarrow> ('i, 'x) state \<Rightarrow> ('i, 'x) state"
  cDrain :: "bool \<Rightarrow> (string \<Rightarrow> ('i, 'x) state \<Rightarrow> ('i, 'x) state \<times> emission list)
               \<Rightarrow> ('i, 'x) state \<Rightarrow> ('i, 'x) state \<times> emission list"
  cReset :: "('i, 'x) state \<Rightarrow> ('i, 'x) state"
  cHasBuffered :: "('i, 'x) state \<Rightarrow> bool"

text \<open>The environment: the methods of \<^verbatim>\<open>ctx\<close> and the imported functions the handlers
  call. None of them is defined in the file; each is a parameter.\<close>

record ('i, 'x) env =
  params :: params
  blockChunking :: bool
  blockChunker :: "('i, 'x) chunker option"
  emitBlockChunk :: "string \<Rightarrow> ('i, 'x) state \<Rightarrow> ('i, 'x) state \<times> emission list"
  emitReasoningStream :: "string \<Rightarrow> ('i, 'x) state \<Rightarrow> ('i, 'x) state \<times> emission list"
  stripBlockTags :: "string \<Rightarrow> 'i tag_state \<Rightarrow> string \<times> 'i tag_state"
  consumePartialReplyDirectives ::
    "string \<Rightarrow> ('i, 'x) state \<Rightarrow> reply_payload option \<times> ('i, 'x) state"
  consumeReplyDirectives ::
    "string \<Rightarrow> bool \<Rightarrow> ('i, 'x) state \<Rightarrow> reply_payload option \<times> ('i, 'x) state"
  finalizeAssistantTexts :: "string \<Rightarrow> bool \<Rightarrow> bool \<Rightarrow> ('i, 'x) state \<Rightarrow> ('i, 'x) state"
  resetAssistantMessageState :: "nat \<Rightarrow> ('i, 'x) state \<Rightarrow> ('i, 'x) state"
  parseReplyDirectives :: "string \<Rightarrow> reply_payload"
  createInlineCodeState :: 'i
  extractThinkingFromTaggedStream :: "string \<Rightarrow> string"
  extractThinkingFromTaggedText :: "string \<Rightarrow> string"
  formatReasoningMessage :: "string \<Rightarrow> string"
  promoteThinkingTagsToBlocks :: "agent_message \<Rightarrow> agent_message"
  extractAssistantText :: "agent_message \<Rightarrow> string"
  extractAssistantThinking :: "agent_message \<Rightarrow> string"
  normalizeTextForComparison :: "string \<Rightarrow> string"
  isMessagingToolDuplicateNormalized :: "string \<Rightarrow> string list \<Rightarrow> bool"

subsection \<open>handleMessageStart\<close>

definition handleMessageStart ::
  "('i, 'x) env \<Rightarrow> string \<Rightarrow> ('i, 'x) state \<Rightarrow> ('i, 'x) state \<times> emission list" where
  "handleMessageStart env msg_role s =
     (if msg_role \<noteq> ''assistant'' then (s, [])
      else
        (resetAssistantMessageState env (length (assistantTexts s)) s,
         if onAssistantMessageStart (params env) then [AssistantMessageStart] else []))"

subsection \<open>handleMessageUpdate\<close>

definition isTextEvent :: "string \<Rightarrow> bool" where
  "isTextEvent evtType =
     (evtType = ''text_delta'' \<or> evtType = ''text_start'' \<or> evtType = ''text_end'')"

text \<open>The locals \<^verbatim>\<open>delta\<close>, \<^verbatim>\<open>content\<close> and \<^verbatim>\<open>contentIndex\<close> with their defaults.\<close>

definition deltaOf :: "update_event \<Rightarrow> string" where
  "deltaOf evt = (case evDelta evt of Some d \<Rightarrow> d | None \<Rightarrow> [])"

definition contentOf :: "update_event \<Rightarrow> string" where
  "contentOf evt = (case evContent evt of Some c \<Rightarrow> c | None \<Rightarrow> [])"

definition contentIndexOf :: "update_event \<Rightarrow> int" where
  "contentIndexOf evt = (case evContentIndex evt of Some n \<Rightarrow> n | None \<Rightarrow> -1)"

text \<open>The guard against late events of a content block already left.\<close>

definition isLateEvent :: "int \<Rightarrow> ('i, 'x) state \<Rightarrow> bool" where
  "isLateEvent contentIndex s =
     (contentIndex \<ge> 0 \<and> currentTextContentIndex s \<ge> 0
      \<and> contentIndex < currentTextContentIndex s)"

text \<open>The content block boundary.\<close>

definition isBlockTransition :: "int \<Rightarrow> ('i, 'x) state \<Rightarrow> bool" where
  "isBlockTransition contentIndex s =
     (contentIndex \<ge> 0 \<and> contentIndex \<noteq> currentTextContentIndex s
      \<and> currentTextContentIndex s \<ge> 0)"

definition newline :: string where
  "newline = [CHR 0x0A]"

definition freshTagState :: "('i, 'x) env \<Rightarrow> 'i tag_state" where
  "freshTagState env =
     \<lparr>thinking = False, final = False, inlineCode = Some (createInlineCodeState env)\<rparr>"

text \<open>The flush at the boundary: the chunker is drained by force and reset; without a
  chunker a non-empty \<^verbatim>\<open>blockBuffer\<close> goes to \<^verbatim>\<open>emitBlockChunk\<close>.\<close>

definition flushAtBoundary ::
  "('i, 'x) env \<Rightarrow> ('i, 'x) state \<Rightarrow> ('i, 'x) state \<times> emission list" where
  "flushAtBoundary env s =
     (case blockChunker env of
        Some c \<Rightarrow>
          (let (s1, out) = cDrain c True (emitBlockChunk env) s in (cReset c s1, out))
      | None \<Rightarrow>
          if blockBuffer s \<noteq> [] then
            (let (s1, out) = emitBlockChunk env (blockBuffer s) s
             in (s1\<lparr>blockBuffer := []\<rparr>, out))
          else (s, []))"

text \<open>The reset of the accumulators of one block, and the separator.\<close>

definition resetBlockAccumulators :: "('i, 'x) env \<Rightarrow> ('i, 'x) state \<Rightarrow> ('i, 'x) state" where
  "resetBlockAccumulators env s =
     (let s1 = s\<lparr>deltaBuffer := [],
                  lastStreamedAssistantCleaned := None,
                  emittedAssistantUpdate := False,
                  partialBlockState := freshTagState env\<rparr>
      in if cumulativeStreamedText s1 \<noteq> []
         then s1\<lparr>cumulativeStreamedText := cumulativeStreamedText s1 @ newline\<rparr>
         else s1)"

definition contentBlockTransition ::
  "('i, 'x) env \<Rightarrow> ('i, 'x) state \<Rightarrow> ('i, 'x) state \<times> emission list" where
  "contentBlockTransition env s =
     (let (s1, out) = flushAtBoundary env s in (resetBlockAccumulators env s1, out))"

text \<open>The chunk of one sub-event, against the \<^verbatim>\<open>deltaBuffer\<close> of the moment.\<close>

definition computeChunk :: "string \<Rightarrow> string \<Rightarrow> string \<Rightarrow> string \<Rightarrow> string" where
  "computeChunk evtType delta cont buffer =
     (if evtType = ''text_delta'' then delta
      else if evtType = ''text_start'' \<or> evtType = ''text_end'' then
        (if delta \<noteq> [] then delta
         else if cont \<noteq> [] then
           (if prefix buffer cont then drop (length buffer) cont
            else if prefix cont buffer then []
            else if \<not> sublist cont buffer then cont
            else [])
         else [])
      else [])"

definition appendChunk :: "('i, 'x) env \<Rightarrow> string \<Rightarrow> ('i, 'x) state \<Rightarrow> ('i, 'x) state" where
  "appendChunk env chunk s =
     (if chunk \<noteq> [] then
        (let s1 = s\<lparr>deltaBuffer := deltaBuffer s @ chunk\<rparr>
         in case blockChunker env of
              Some c \<Rightarrow> cAppend c chunk s1
            | None \<Rightarrow> s1\<lparr>blockBuffer := blockBuffer s1 @ chunk\<rparr>)
      else s)"

definition streamReasoningStep ::
  "('i, 'x) env \<Rightarrow> ('i, 'x) state \<Rightarrow> ('i, 'x) state \<times> emission list" where
  "streamReasoningStep env s =
     (if streamReasoning s
      then emitReasoningStream env (extractThinkingFromTaggedStream env (deltaBuffer s)) s
      else (s, []))"

text \<open>\<^verbatim>\<open>next\<close>: the buffer with the block tags stripped (from a fresh tag state), trimmed.\<close>

definition nextVisible :: "('i, 'x) env \<Rightarrow> ('i, 'x) state \<Rightarrow> string" where
  "nextVisible env s = trim (fst (stripBlockTags env (deltaBuffer s) (freshTagState env)))"

text \<open>\<^verbatim>\<open>visibleDelta\<close> and \<^verbatim>\<open>parsedDelta\<close>: the chunk stripped with
  \<^verbatim>\<open>partialBlockState\<close> (which the call advances) and given to the partial directive
  parser.\<close>

definition consumeVisibleDelta ::
  "('i, 'x) env \<Rightarrow> string \<Rightarrow> ('i, 'x) state \<Rightarrow> reply_payload option \<times> ('i, 'x) state" where
  "consumeVisibleDelta env chunk s =
     (if chunk \<noteq> [] then
        (let (visibleDelta, ts) = stripBlockTags env chunk (partialBlockState s);
             s1 = s\<lparr>partialBlockState := ts\<rparr>
         in if visibleDelta \<noteq> [] then consumePartialReplyDirectives env visibleDelta s1
            else (None, s1))
      else (None, s))"

definition hasMediaUrls :: "string list option \<Rightarrow> bool" where
  "hasMediaUrls urls = (case urls of Some us \<Rightarrow> us \<noteq> [] | None \<Rightarrow> False)"

text \<open>\<^verbatim>\<open>shouldEmit\<close> and \<^verbatim>\<open>deltaText\<close>.\<close>

definition emitDecision :: "string \<Rightarrow> bool \<Rightarrow> bool \<Rightarrow> string \<Rightarrow> bool \<times> string" where
  "emitDecision cleanedText hasMedia hasAudio previousCleaned =
     (if cleanedText = [] \<and> \<not> hasMedia \<and> \<not> hasAudio then (False, [])
      else if previousCleaned \<noteq> [] \<and> \<not> prefix previousCleaned cleanedText then (False, [])
      else
        (let deltaText = drop (length previousCleaned) cleanedText
         in (deltaText \<noteq> [] \<or> hasMedia \<or> hasAudio, deltaText)))"

definition liveUpdate ::
  "('i, 'x) env \<Rightarrow> string \<Rightarrow> ('i, 'x) state \<Rightarrow> ('i, 'x) state \<times> emission list" where
  "liveUpdate env chunk s =
     (let next = nextVisible env s
      in if next = [] then (s, [])
         else
           (let (parsedDelta, s1) = consumeVisibleDelta env chunk s;
                parsedFull = parseReplyDirectives env (stripTrailingDirective next);
                cleanedText = replyText parsedFull;
                urls = (case parsedDelta of Some p \<Rightarrow> mediaUrls p | None \<Rightarrow> None);
                hasMedia = hasMediaUrls urls;
                hasAudio = (case parsedDelta of Some p \<Rightarrow> audioAsVoice p | None \<Rightarrow> False);
                previousCleaned =
                  (case lastStreamedAssistantCleaned s1 of Some p \<Rightarrow> p | None \<Rightarrow> []);
                (shouldEmit, deltaText) =
                  emitDecision cleanedText hasMedia hasAudio previousCleaned;
                s2 = s1\<lparr>lastStreamedAssistant := Some next,
                         lastStreamedAssistantCleaned := Some cleanedText\<rparr>
            in if shouldEmit then
                 (let s3 = s2\<lparr>cumulativeStreamedText := cumulativeStreamedText s2 @ deltaText\<rparr>;
                      cumulativeText = cumulativeStreamedText s3;
                      media = (if hasMedia then urls else None)
                  in (s3\<lparr>emittedAssistantUpdate := True\<rparr>,
                      [AgentEvent cumulativeText deltaText media]
                      @ (if onAgentEvent (params env)
                         then [OnAgentEvent cumulativeText deltaText media] else [])
                      @ (if onPartialReply (params env) \<and> shouldEmitPartialReplies s3
                         then [PartialReply cumulativeText media] else [])))
               else (s2, [])))"

text \<open>The drains after the update: the chunker is drained without force when block
  replies break at \<^verbatim>\<open>text_end\<close>, and a \<^verbatim>\<open>text_end\<close> flushes what is pending.\<close>

definition drainChunker ::
  "('i, 'x) env \<Rightarrow> ('i, 'x) state \<Rightarrow> ('i, 'x) state \<times> emission list" where
  "drainChunker env s =
     (if onBlockReply (params env) \<and> blockChunking env \<and> blockReplyBreak s = TextEnd then
        (case blockChunker env of
           Some c \<Rightarrow> cDrain c False (emitBlockChunk env) s
         | None \<Rightarrow> (s, []))
      else (s, []))"

definition chunkerHasBuffered :: "('i, 'x) env \<Rightarrow> ('i, 'x) state \<Rightarrow> bool" where
  "chunkerHasBuffered env s =
     (case blockChunker env of Some c \<Rightarrow> cHasBuffered c s | None \<Rightarrow> False)"

definition forceDrainChunker ::
  "('i, 'x) env \<Rightarrow> ('i, 'x) state \<Rightarrow> ('i, 'x) state \<times> emission list" where
  "forceDrainChunker env s =
     (case blockChunker env of
        Some c \<Rightarrow> (let (s1, out) = cDrain c True (emitBlockChunk env) s in (cReset c s1, out))
      | None \<Rightarrow> (s, []))"

definition flushAtTextEnd ::
  "('i, 'x) env \<Rightarrow> string \<Rightarrow> ('i, 'x) state \<Rightarrow> ('i, 'x) state \<times> emission list" where
  "flushAtTextEnd env evtType s =
     (if evtType = ''text_end'' \<and> blockReplyBreak s = TextEnd then
        (if chunkerHasBuffered env s then forceDrainChunker env s
         else if blockBuffer s \<noteq> [] then
           (let (s1, out) = emitBlockChunk env (blockBuffer s) s
            in (s1\<lparr>blockBuffer := []\<rparr>, out))
         else (s, []))
      else (s, []))"

text \<open>The handler from the chunk on (the source from \<^verbatim>\<open>let chunk = ""\<close> to the end).\<close>

definition processChunk ::
  "('i, 'x) env \<Rightarrow> update_event \<Rightarrow> ('i, 'x) state \<Rightarrow> ('i, 'x) state \<times> emission list" where
  "processChunk env evt s =
     (let chunk = computeChunk (evType evt) (deltaOf evt) (contentOf evt) (deltaBuffer s);
          s1 = appendChunk env chunk s;
          (s2, out2) = streamReasoningStep env s1;
          (s3, out3) = liveUpdate env chunk s2;
          (s4, out4) = drainChunker env s3;
          (s5, out5) = flushAtTextEnd env (evType evt) s4
      in (s5, out2 @ out3 @ out4 @ out5))"

definition trackContentIndex :: "int \<Rightarrow> ('i, 'x) state \<Rightarrow> ('i, 'x) state" where
  "trackContentIndex contentIndex s =
     (if contentIndex \<ge> 0 then s\<lparr>currentTextContentIndex := contentIndex\<rparr> else s)"

definition handleMessageUpdate ::
  "('i, 'x) env \<Rightarrow> update_event \<Rightarrow> ('i, 'x) state \<Rightarrow> ('i, 'x) state \<times> emission list" where
  "handleMessageUpdate env evt s =
     (if msgRole evt \<noteq> ''assistant'' then (s, [])
      else if \<not> isTextEvent (evType evt) then (s, [])
      else
        (let contentIndex = contentIndexOf evt
         in if isLateEvent contentIndex s then (s, [])
            else
              (let (s1, out1) =
                     (if isBlockTransition contentIndex s then contentBlockTransition env s
                      else (s, []));
                   s2 = trackContentIndex contentIndex s1;
                   (s3, out3) = processChunk env evt s2
               in (s3, out1 @ out3))))"

subsection \<open>handleMessageEnd\<close>

text \<open>\<^verbatim>\<open>rawText\<close>, read from the message after \<^verbatim>\<open>promoteThinkingTagsToBlocks\<close> has
  rewritten it, and \<^verbatim>\<open>text\<close>, the raw text with the block tags stripped.\<close>

definition endRawText :: "('i, 'x) env \<Rightarrow> agent_message \<Rightarrow> string" where
  "endRawText env msg = extractAssistantText env (promoteThinkingTagsToBlocks env msg)"

definition endText :: "('i, 'x) env \<Rightarrow> agent_message \<Rightarrow> string" where
  "endText env msg =
     fst (stripBlockTags env (endRawText env msg)
            \<lparr>thinking = False, final = False, inlineCode = None\<rparr>)"

definition endRawThinking :: "('i, 'x) env \<Rightarrow> agent_message \<Rightarrow> ('i, 'x) state \<Rightarrow> string" where
  "endRawThinking env msg s =
     (if includeReasoning s \<or> streamReasoning s then
        (let t = extractAssistantThinking env (promoteThinkingTagsToBlocks env msg)
         in if t \<noteq> [] then t else extractThinkingFromTaggedText env (endRawText env msg))
      else [])"

text \<open>\<^verbatim>\<open>cleanedText\<close>, \<^verbatim>\<open>mediaUrls\<close> and \<^verbatim>\<open>hasMedia\<close> as they stand before the
  fallback update: parsed from the trimmed text, or, when that gives neither text nor media,
  from the trimmed raw text with the \<^verbatim>\<open>final\<close> tags removed. (The parser's \<^verbatim>\<open>text\<close> is
  a string, so the source's \<^verbatim>\<open>?? rawCandidate\<close> is never taken.)\<close>

definition endCleaned ::
  "('i, 'x) env \<Rightarrow> agent_message \<Rightarrow> string \<times> string list option \<times> bool" where
  "endCleaned env msg =
     (let rawText = endRawText env msg;
          trimmedText = trim (endText env msg);
          parsedText =
            (if trimmedText \<noteq> []
             then Some (parseReplyDirectives env (stripTrailingDirective trimmedText))
             else None);
          cleanedText = (case parsedText of Some p \<Rightarrow> replyText p | None \<Rightarrow> []);
          urls = (case parsedText of Some p \<Rightarrow> mediaUrls p | None \<Rightarrow> None);
          hasMedia = hasMediaUrls urls
      in if cleanedText = [] \<and> \<not> hasMedia then
           (let rawTrimmed = trim rawText;
                rawStrippedFinal = trim (removeFinalTags rawTrimmed);
                rawCandidate = (if rawStrippedFinal \<noteq> [] then rawStrippedFinal else rawTrimmed)
            in if rawCandidate \<noteq> [] then
                 (let parsedFallback =
                        parseReplyDirectives env (stripTrailingDirective rawCandidate)
                  in (replyText parsedFallback, mediaUrls parsedFallback,
                      hasMediaUrls (mediaUrls parsedFallback)))
               else (cleanedText, urls, hasMedia))
         else (cleanedText, urls, hasMedia))"

text \<open>The update sent at the end when \<^verbatim>\<open>emittedAssistantUpdate\<close> is false.\<close>

definition fallbackUpdate ::
  "('i, 'x) env \<Rightarrow> string \<Rightarrow> string list option \<Rightarrow> bool \<Rightarrow> ('i, 'x) state
     \<Rightarrow> ('i, 'x) state \<times> emission list" where
  "fallbackUpdate env cleanedText urls hasMedia s =
     (if \<not> emittedAssistantUpdate s \<and> (cleanedText \<noteq> [] \<or> hasMedia) then
        (let media = (if hasMedia then urls else None)
         in (s\<lparr>emittedAssistantUpdate := True\<rparr>,
             [AgentEvent cleanedText cleanedText media]
             @ (if onAgentEvent (params env)
                then [OnAgentEvent cleanedText cleanedText media] else [])))
      else (s, []))"

definition textPayload :: "string \<Rightarrow> reply_payload" where
  "textPayload t =
     \<lparr>replyText = t, mediaUrls = None, audioAsVoice = False, replyToId = None,
      replyToTag = False, replyToCurrent = False\<rparr>"

definition maybeEmitReasoning ::
  "bool \<Rightarrow> string \<Rightarrow> ('i, 'x) state \<Rightarrow> ('i, 'x) state \<times> emission list" where
  "maybeEmitReasoning shouldEmitReasoning formattedReasoning s =
     (if \<not> shouldEmitReasoning \<or> formattedReasoning = [] then (s, [])
      else (s\<lparr>lastReasoningSent := Some formattedReasoning\<rparr>,
            [BlockReply (textPayload formattedReasoning)]))"

text \<open>The block reply for a result of \<^verbatim>\<open>consumeReplyDirectives\<close>: sent when there is
  text, media or the voice flag.\<close>

definition sendSplitResult :: "reply_payload option \<Rightarrow> emission list" where
  "sendSplitResult splitResult =
     (case splitResult of
        None \<Rightarrow> []
      | Some r \<Rightarrow>
          if replyText r \<noteq> [] \<or> hasMediaUrls (mediaUrls r) \<or> audioAsVoice r
          then [BlockReply (r\<lparr>mediaUrls :=
                  (if hasMediaUrls (mediaUrls r) then mediaUrls r else None)\<rparr>)]
          else [])"

text \<open>The block reply for the text of the whole message.\<close>

definition finalBlockReply ::
  "('i, 'x) env \<Rightarrow> string \<Rightarrow> ('i, 'x) state \<Rightarrow> ('i, 'x) state \<times> emission list" where
  "finalBlockReply env txt s =
     (if (blockReplyBreak s = MessageEnd
          \<or> (case blockChunker env of
                Some c \<Rightarrow> cHasBuffered c s
              | None \<Rightarrow> blockBuffer s \<noteq> []))
         \<and> txt \<noteq> [] \<and> onBlockReply (params env)
      then
        (if chunkerHasBuffered env s then forceDrainChunker env s
         else if Some txt \<noteq> lastBlockReplyText s then
           (let normalizedText = normalizeTextForComparison env txt
            in if isMessagingToolDuplicateNormalized env normalizedText
                    (messagingToolSentTextsNormalized s)
               then (s, [])
               else
                 (let s1 = s\<lparr>lastBlockReplyText := Some txt\<rparr>;
                      (splitResult, s2) = consumeReplyDirectives env txt True s1
                  in (s2, sendSplitResult splitResult)))
         else (s, []))
      else (s, []))"

definition tailReply ::
  "('i, 'x) env \<Rightarrow> ('i, 'x) state \<Rightarrow> ('i, 'x) state \<times> emission list" where
  "tailReply env s =
     (if blockReplyBreak s = TextEnd \<and> onBlockReply (params env) then
        (let (tailResult, s1) = consumeReplyDirectives env [] True s
         in (s1, sendSplitResult tailResult))
      else (s, []))"

definition resetAtMessageEnd :: "('i, 'x) env \<Rightarrow> ('i, 'x) state \<Rightarrow> ('i, 'x) state" where
  "resetAtMessageEnd env s =
     (let s1 = s\<lparr>deltaBuffer := [], blockBuffer := []\<rparr>;
          s2 = (case blockChunker env of Some c \<Rightarrow> cReset c s1 | None \<Rightarrow> s1)
      in s2\<lparr>blockState :=
               (blockState s2)\<lparr>thinking := False, final := False,
                                inlineCode := Some (createInlineCodeState env)\<rparr>,
             lastStreamedAssistant := None,
             lastStreamedAssistantCleaned := None\<rparr>)"

definition handleMessageEnd ::
  "('i, 'x) env \<Rightarrow> agent_message \<Rightarrow> ('i, 'x) state \<Rightarrow> ('i, 'x) state \<times> emission list" where
  "handleMessageEnd env msg s =
     (if role msg \<noteq> ''assistant'' then (s, [])
      else
        (let txt = endText env msg;
             rawThinking = endRawThinking env msg s;
             formattedReasoning =
               (if rawThinking \<noteq> [] then formatReasoningMessage env rawThinking else []);
             (cleanedText, urls, hasMedia) = endCleaned env msg;
             (s1, out1) = fallbackUpdate env cleanedText urls hasMedia s;
             addedDuringMessage = (length (assistantTexts s1) > assistantTextBaseline s1);
             s2 = finalizeAssistantTexts env txt addedDuringMessage
                    (chunkerHasBuffered env s1) s1;
             shouldEmitReasoning =
               (includeReasoning s2 \<and> formattedReasoning \<noteq> [] \<and> onBlockReply (params env)
                \<and> Some formattedReasoning \<noteq> lastReasoningSent s2);
             shouldEmitReasoningBeforeAnswer =
               (shouldEmitReasoning \<and> blockReplyBreak s2 = MessageEnd \<and> \<not> addedDuringMessage);
             (s3, out3) =
               (if shouldEmitReasoningBeforeAnswer
                then maybeEmitReasoning shouldEmitReasoning formattedReasoning s2
                else (s2, []));
             (s4, out4) = finalBlockReply env txt s3;
             (s5, out5) =
               (if \<not> shouldEmitReasoningBeforeAnswer
                then maybeEmitReasoning shouldEmitReasoning formattedReasoning s4
                else (s4, []));
             (s6, out6) =
               (if streamReasoning s5 \<and> rawThinking \<noteq> []
                then emitReasoningStream env rawThinking s5
                else (s5, []));
             (s7, out7) = tailReply env s6
         in (resetAtMessageEnd env s7, out1 @ out3 @ out4 @ out5 @ out6 @ out7)))"

subsection \<open>Runs\<close>

text \<open>The events of a session, handled in the order of arrival.\<close>

datatype session_event =
    MessageStartEvent string
  | MessageUpdateEvent update_event
  | MessageEndEvent agent_message

definition handleEvent ::
  "('i, 'x) env \<Rightarrow> session_event \<Rightarrow> ('i, 'x) state \<Rightarrow> ('i, 'x) state \<times> emission list" where
  "handleEvent env e s =
     (case e of
        MessageStartEvent r \<Rightarrow> handleMessageStart env r s
      | MessageUpdateEvent u \<Rightarrow> handleMessageUpdate env u s
      | MessageEndEvent m \<Rightarrow> handleMessageEnd env m s)"

fun runEvents ::
  "('i, 'x) env \<Rightarrow> session_event list \<Rightarrow> ('i, 'x) state \<Rightarrow> ('i, 'x) state \<times> emission list" where
  "runEvents env [] s = (s, [])"
| "runEvents env (e # es) s =
     (let (s1, out1) = handleEvent env e s;
          (s2, out2) = runEvents env es s1
      in (s2, out1 @ out2))"

fun runUpdates ::
  "('i, 'x) env \<Rightarrow> update_event list \<Rightarrow> ('i, 'x) state \<Rightarrow> ('i, 'x) state \<times> emission list" where
  "runUpdates env [] s = (s, [])"
| "runUpdates env (u # us) s =
     (let (s1, out1) = handleMessageUpdate env u s;
          (s2, out2) = runUpdates env us s1
      in (s2, out1 @ out2))"

text \<open>The \<^verbatim>\<open>data.text\<close> of the events sent with \<^verbatim>\<open>emitAgentEvent\<close>, the deltas, and
  the texts of the block replies.\<close>

fun agentEventTexts :: "emission list \<Rightarrow> string list" where
  "agentEventTexts [] = []"
| "agentEventTexts (AgentEvent t d m # es) = t # agentEventTexts es"
| "agentEventTexts (e # es) = agentEventTexts es"

fun agentEventDeltas :: "emission list \<Rightarrow> string list" where
  "agentEventDeltas [] = []"
| "agentEventDeltas (AgentEvent t d m # es) = d # agentEventDeltas es"
| "agentEventDeltas (e # es) = agentEventDeltas es"


fun isAssistantUpdate :: "emission \<Rightarrow> bool" where
  "isAssistantUpdate (AgentEvent t d m) = True"
| "isAssistantUpdate (OnAgentEvent t d m) = True"
| "isAssistantUpdate (PartialReply t m) = True"
| "isAssistantUpdate e = False"

text \<open>A list of texts in which each one extends the one before.\<close>

fun prefixChain :: "string list \<Rightarrow> bool" where
  "prefixChain [] = True"
| "prefixChain [t] = True"
| "prefixChain (t # u # ts) = (prefix t u \<and> prefixChain (u # ts))"

subsection \<open>An environment for plain text\<close>

text \<open>Modelled from the spec: the collaborators that are not part of the file
  (\<^verbatim>\<open>stripBlockTags\<close>, \<^verbatim>\<open>parseReplyDirectives\<close>, \<^verbatim>\<open>consumePartialReplyDirectives\<close>,
  \<^verbatim>\<open>consumeReplyDirectives\<close>, \<^verbatim>\<open>emitBlockChunk\<close>, \<^verbatim>\<open>emitReasoningStream\<close>,
  \<^verbatim>\<open>finalizeAssistantTexts\<close>, \<^verbatim>\<open>extractAssistantText\<close> and the others), as they act on
  text that holds no tag, no complete directive and no reasoning: tag stripping and directive
  extraction return such text as it is, with no media and no flag; a flushed chunk is
  delivered as one block reply; the text of a message is its text blocks joined with a
  newline; the texts are compared as they are. No chunker is configured and every callback
  is given. The concrete runs below use it on such text only.\<close>

fun joinLines :: "string list \<Rightarrow> string" where
  "joinLines [] = []"
| "joinLines [t] = t"
| "joinLines (t # u # ts) = t @ newline @ joinLines (u # ts)"

fun textBlocks :: "content_block list \<Rightarrow> string list" where
  "textBlocks [] = []"
| "textBlocks (TextBlock t # bs) = t # textBlocks bs"
| "textBlocks (b # bs) = textBlocks bs"

fun thinkingBlocks :: "content_block list \<Rightarrow> string list" where
  "thinkingBlocks [] = []"
| "thinkingBlocks (ThinkingBlock t # bs) = t # thinkingBlocks bs"
| "thinkingBlocks (b # bs) = thinkingBlocks bs"

definition plainEnv :: "(unit, unit) env" where
  "plainEnv =
     \<lparr>params = \<lparr>onAgentEvent = True, onPartialReply = True, onBlockReply = True,
                 onAssistantMessageStart = True\<rparr>,
      blockChunking = False,
      blockChunker = None,
      emitBlockChunk = (\<lambda>t s. (s, [BlockReply (textPayload t)])),
      emitReasoningStream = (\<lambda>t s. (s, [ReasoningStream t])),
      stripBlockTags = (\<lambda>t ts. (t, ts)),
      consumePartialReplyDirectives = (\<lambda>t s. (Some (textPayload t), s)),
      consumeReplyDirectives = (\<lambda>t fin s. (if t = [] then None else Some (textPayload t), s)),
      finalizeAssistantTexts =
        (\<lambda>t added buffered s.
           if added then s else s\<lparr>assistantTexts := assistantTexts s @ [t]\<rparr>),
      resetAssistantMessageState =
        (\<lambda>baseline s.
           s\<lparr>currentTextContentIndex := -1, deltaBuffer := [], blockBuffer := [],
             cumulativeStreamedText := [], lastStreamedAssistant := None,
             lastStreamedAssistantCleaned := None, emittedAssistantUpdate := False,
             partialBlockState := \<lparr>thinking = False, final = False, inlineCode = Some ()\<rparr>,
             blockState := \<lparr>thinking = False, final = False, inlineCode = Some ()\<rparr>,
             assistantTextBaseline := baseline, lastBlockReplyText := None,
             lastReasoningSent := None\<rparr>),
      parseReplyDirectives = textPayload,
      createInlineCodeState = (),
      extractThinkingFromTaggedStream = (\<lambda>t. []),
      extractThinkingFromTaggedText = (\<lambda>t. []),
      formatReasoningMessage = (\<lambda>t. t),
      promoteThinkingTagsToBlocks = (\<lambda>m. m),
      extractAssistantText = (\<lambda>m. joinLines (textBlocks (content m))),
      extractAssistantThinking = (\<lambda>m. joinLines (thinkingBlocks (content m))),
      normalizeTextForComparison = (\<lambda>t. t),
      isMessagingToolDuplicateNormalized = (\<lambda>t sent. t \<in> set sent)\<rparr>"

text \<open>Modelled from the spec: the state at the start of an assistant message (section 3:
  the block index unset at \<open>-1\<close>, the buffers empty, nothing emitted yet), for a session that
  neither includes nor streams reasoning.\<close>

definition startState :: "block_reply_break \<Rightarrow> (unit, unit) state" where
  "startState brk =
     \<lparr>currentTextContentIndex = -1, deltaBuffer = [], blockBuffer = [],
      cumulativeStreamedText = [], lastStreamedAssistant = None,
      lastStreamedAssistantCleaned = None, emittedAssistantUpdate = False,
      partialBlockState = \<lparr>thinking = False, final = False, inlineCode = Some ()\<rparr>,
      blockState = \<lparr>thinking = False, final = False, inlineCode = Some ()\<rparr>,
      streamReasoning = False, includeReasoning = False, shouldEmitPartialReplies = True,
      blockReplyBreak = brk, assistantTexts = [], assistantTextBaseline = 0,
      lastBlockReplyText = None, lastReasoningSent = None,
      messagingToolSentTextsNormalized = [], ext = ()\<rparr>"

text \<open>Sub-events as the tests build them.\<close>

definition textDelta :: "string \<Rightarrow> int option \<Rightarrow> update_event" where
  "textDelta d idx =
     \<lparr>msgRole = ''assistant'', evType = ''text_delta'', evDelta = Some d, evContent = None,
      evContentIndex = idx\<rparr>"

definition textStart :: "int option \<Rightarrow> update_event" where
  "textStart idx =
     \<lparr>msgRole = ''assistant'', evType = ''text_start'', evDelta = Some [], evContent = Some [],
      evContentIndex = idx\<rparr>"

definition textEnd :: "string \<Rightarrow> int option \<Rightarrow> update_event" where
  "textEnd c idx =
     \<lparr>msgRole = ''assistant'', evType = ''text_end'', evDelta = None, evContent = Some c,
      evContentIndex = idx\<rparr>"

text \<open>A sub-event of another type, which the update handler does not accept.\<close>

definition thinkingDelta :: update_event where
  "thinkingDelta =
     \<lparr>msgRole = ''assistant'', evType = ''thinking_delta'', evDelta = Some ''hm'',
      evContent = None, evContentIndex = None\<rparr>"

definition assistantMessage :: "string list \<Rightarrow> agent_message" where
  "assistantMessage ts = \<lparr>role = ''assistant'', content = map TextBlock ts\<rparr>"

subsection \<open>An environment with directives\<close>

text \<open>Modelled from the spec: a directive extractor (section 4.3) for markers that arrive
  whole. Every complete marker \<open>[[...]]\<close> is taken out of the text; the marker
  \<open>[[audio_as_voice]]\<close> sets the voice flag and a marker \<open>[[media:URL]]\<close> attaches the URL.
  An opener that is never closed stays in the text. \<open>scanMarkers\<close> reads the text with the
  body of the open marker (reversed) at hand, and returns the text left and the bodies of
  the markers. The partial mode reads each chunk on its own. All the rest is as in
  \<open>plainEnv\<close>.\<close>

fun scanMarkers :: "string option \<Rightarrow> string \<Rightarrow> string \<times> string list" where
  "scanMarkers None (c # d # cs) =
     (if c = CHR ''['' \<and> d = CHR ''['' then scanMarkers (Some []) cs
      else (let (t, ms) = scanMarkers None (d # cs) in (c # t, ms)))"
| "scanMarkers None cs = (cs, [])"
| "scanMarkers (Some b) (c # d # cs) =
     (if c = CHR '']'' \<and> d = CHR '']'' then
        (let (t, ms) = scanMarkers None cs in (t, rev b # ms))
      else scanMarkers (Some (c # b)) (d # cs))"
| "scanMarkers (Some b) cs = (''[['' @ rev b @ cs, [])"

definition directivePayload :: "string \<Rightarrow> reply_payload" where
  "directivePayload t =
     (let (cleaned, ms) = scanMarkers None t;
          urls = map (drop 6) (filter (prefix ''media:'') ms)
      in \<lparr>replyText = cleaned,
          mediaUrls = (if urls = [] then None else Some urls),
          audioAsVoice = (''audio_as_voice'' \<in> set ms),
          replyToId = None, replyToTag = False, replyToCurrent = False\<rparr>)"

definition directiveEnv :: "(unit, unit) env" where
  "directiveEnv =
     plainEnv\<lparr>consumePartialReplyDirectives := (\<lambda>t s. (Some (directivePayload t), s)),
              consumeReplyDirectives :=
                (\<lambda>t fin s. (if t = [] then None else Some (directivePayload t), s)),
              parseReplyDirectives := directivePayload\<rparr>"




subsection \<open>States of the concrete runs\<close>

text \<open>Block 0 has streamed \<open>Partial\<close>; \<open>Hello world\<close>; \<open>Hi [\<close>.\<close>

definition partialStreamedState :: "(unit, unit) state" where
  "partialStreamedState =
     (startState TextEnd)\<lparr>currentTextContentIndex := 0, deltaBuffer := ''Partial'',
        blockBuffer := ''Partial'', cumulativeStreamedText := ''Partial'',
        lastStreamedAssistant := Some ''Partial'',
        lastStreamedAssistantCleaned := Some ''Partial'', emittedAssistantUpdate := True\<rparr>"

definition helloWorldState :: "(unit, unit) state" where
  "helloWorldState =
     (startState TextEnd)\<lparr>currentTextContentIndex := 0, deltaBuffer := ''Hello world'',
        blockBuffer := ''Hello world'', cumulativeStreamedText := ''Hello world'',
        lastStreamedAssistant := Some ''Hello world'',
        lastStreamedAssistantCleaned := Some ''Hello world'', emittedAssistantUpdate := True\<rparr>"

definition openBracketState :: "(unit, unit) state" where
  "openBracketState =
     (startState TextEnd)\<lparr>currentTextContentIndex := 0, deltaBuffer := ''Hi ['',
        blockBuffer := ''Hi ['', cumulativeStreamedText := ''Hi ['',
        lastStreamedAssistant := Some ''Hi ['', lastStreamedAssistantCleaned := Some ''Hi ['',
        emittedAssistantUpdate := True\<rparr>"

text \<open>Block 0 has streamed \<open>A\<close>; and block 1 has streamed \<open>B\<close> after it.\<close>

definition afterAState :: "(unit, unit) state" where
  "afterAState =
     (startState TextEnd)\<lparr>currentTextContentIndex := 0, deltaBuffer := ''A'',
        blockBuffer := ''A'', cumulativeStreamedText := ''A'',
        lastStreamedAssistant := Some ''A'', lastStreamedAssistantCleaned := Some ''A'',
        emittedAssistantUpdate := True\<rparr>"


text \<open>Block 0 has streamed \<open>Hi\<close>.\<close>

definition hiState :: "(unit, unit) state" where
  "hiState =
     (startState TextEnd)\<lparr>currentTextContentIndex := 0, deltaBuffer := ''Hi'',
        blockBuffer := ''Hi'', cumulativeStreamedText := ''Hi'',
        lastStreamedAssistant := Some ''Hi'', lastStreamedAssistantCleaned := Some ''Hi'',
        emittedAssistantUpdate := True\<rparr>"

subsection \<open>What the theorems ask of the environment\<close>

definition setIndex :: "int \<Rightarrow> ('i, 'x) state \<Rightarrow> ('i, 'x) state" where
  "setIndex k s = s\<lparr>currentTextContentIndex := k\<rparr>"

text \<open>The methods of \<^verbatim>\<open>ctx\<close> that the update handler calls neither read nor write
  \<^verbatim>\<open>currentTextContentIndex\<close>: run from a state with another index, each gives the same
  result and output, and the same state but for that index.\<close>

definition indexFree :: "('i, 'x) env \<Rightarrow> bool" where
  "indexFree env =
     ((\<forall>t s k. emitBlockChunk env t (setIndex k s)
                = (case emitBlockChunk env t s of (s', out) \<Rightarrow> (setIndex k s', out)))
      \<and> (\<forall>t s k. emitReasoningStream env t (setIndex k s)
                = (case emitReasoningStream env t s of (s', out) \<Rightarrow> (setIndex k s', out)))
      \<and> (\<forall>t s k. consumePartialReplyDirectives env t (setIndex k s)
                = (case consumePartialReplyDirectives env t s of
                     (r, s') \<Rightarrow> (r, setIndex k s')))
      \<and> (case blockChunker env of
            None \<Rightarrow> True
          | Some c \<Rightarrow>
              (\<forall>t s k. cAppend c t (setIndex k s) = setIndex k (cAppend c t s))
              \<and> (\<forall>f s k. cDrain c f (emitBlockChunk env) (setIndex k s)
                        = (case cDrain c f (emitBlockChunk env) s of
                             (s', out) \<Rightarrow> (setIndex k s', out)))
              \<and> (\<forall>s k. cReset c (setIndex k s) = setIndex k (cReset c s))
              \<and> (\<forall>s k. cHasBuffered c (setIndex k s) = cHasBuffered c s)))"

text \<open>The sub-events of a stream with \<^verbatim>\<open>contentIndex\<close> 0 attached to each.\<close>

definition withIndexZero :: "update_event list \<Rightarrow> update_event list" where
  "withIndexZero us = map (\<lambda>u. u\<lparr>evContentIndex := Some 0\<rparr>) us"

text \<open>The methods of \<^verbatim>\<open>ctx\<close> leave \<^verbatim>\<open>cumulativeStreamedText\<close> as it is.\<close>

definition keepsCumulative :: "('i, 'x) env \<Rightarrow> bool" where
  "keepsCumulative env =
     ((\<forall>t s. cumulativeStreamedText (fst (emitBlockChunk env t s)) = cumulativeStreamedText s)
      \<and> (\<forall>t s. cumulativeStreamedText (fst (emitReasoningStream env t s))
                = cumulativeStreamedText s)
      \<and> (\<forall>t s. cumulativeStreamedText (snd (consumePartialReplyDirectives env t s))
                = cumulativeStreamedText s)
      \<and> (\<forall>t f s. cumulativeStreamedText (snd (consumeReplyDirectives env t f s))
                = cumulativeStreamedText s)
      \<and> (\<forall>t a b s. cumulativeStreamedText (finalizeAssistantTexts env t a b s)
                = cumulativeStreamedText s)
      \<and> (case blockChunker env of
            None \<Rightarrow> True
          | Some c \<Rightarrow>
              (\<forall>t s. cumulativeStreamedText (cAppend c t s) = cumulativeStreamedText s)
              \<and> (\<forall>f s. cumulativeStreamedText (fst (cDrain c f (emitBlockChunk env) s))
                        = cumulativeStreamedText s)
              \<and> (\<forall>s. cumulativeStreamedText (cReset c s) = cumulativeStreamedText s)))"

text \<open>The methods of \<^verbatim>\<open>ctx\<close> send no assistant update of their own (no agent event on
  the stream "assistant" and no partial reply): those come from the handlers only.\<close>

definition sendsNoUpdate :: "('i, 'x) env \<Rightarrow> bool" where
  "sendsNoUpdate env =
     ((\<forall>t s. filter isAssistantUpdate (snd (emitBlockChunk env t s)) = [])
      \<and> (\<forall>t s. filter isAssistantUpdate (snd (emitReasoningStream env t s)) = [])
      \<and> (case blockChunker env of
            None \<Rightarrow> True
          | Some c \<Rightarrow>
              (\<forall>f s. filter isAssistantUpdate (snd (cDrain c f (emitBlockChunk env) s)) = [])))"

text \<open>The chunk and the state with which an accepted sub-event reaches the live update:
  after the block boundary (if it is one), the index, the chunk and the reasoning stream.\<close>

definition liveUpdateInput ::
  "('i, 'x) env \<Rightarrow> update_event \<Rightarrow> ('i, 'x) state \<Rightarrow> string \<times> ('i, 'x) state" where
  "liveUpdateInput env evt s =
     (let contentIndex = contentIndexOf evt;
          s1 = fst (if isBlockTransition contentIndex s then contentBlockTransition env s
                    else (s, []));
          s2 = trackContentIndex contentIndex s1;
          chunk = computeChunk (evType evt) (deltaOf evt) (contentOf evt) (deltaBuffer s2);
          s3 = appendChunk env chunk s2
      in (chunk, fst (streamReasoningStep env s3)))"





section \<open>Properties\<close>

subsection \<open>Occurrences of a pattern\<close>

lemma occursAt_bound: "pat \<noteq> [] \<Longrightarrow> occursAt pat text i \<Longrightarrow> i < length text"
  by (cases "i < length text") (auto simp: occursAt_def)

lemma sublist_drop_occurs:
  "sublist pat (drop k text) \<longleftrightarrow> (\<exists>m\<ge>k. occursAt pat text m)"
proof
  assume "sublist pat (drop k text)"
  then obtain ps ss where e: "drop k text = ps @ pat @ ss" by (auto simp: sublist_def)
  have "drop (length ps) (drop k text) = pat @ ss" using e by simp
  then have "occursAt pat text (k + length ps)"
    by (simp add: occursAt_def add.commute)
  then show "\<exists>m\<ge>k. occursAt pat text m" by (meson le_add1)
next
  assume "\<exists>m\<ge>k. occursAt pat text m"
  then obtain m where m: "k \<le> m" "occursAt pat text m" by blast
  then obtain ss where "drop m text = pat @ ss" by (auto simp: occursAt_def prefix_def)
  moreover have "drop m text = drop (m - k) (drop k text)" using m(1) by simp
  ultimately have "drop k text = take (m - k) (drop k text) @ pat @ ss"
    by (metis append_take_drop_id)
  then show "sublist pat (drop k text)" unfolding sublist_def by blast
qed

lemma filter_rev_upt_Cons:
  "filter P (rev [0..<n]) = i # rest \<Longrightarrow> P i \<and> i < n \<and> (\<forall>k. i < k \<and> k < n \<longrightarrow> \<not> P k)"
proof (induction n arbitrary: i rest)
  case 0 then show ?case by simp
next
  case (Suc n)
  show ?case
  proof (cases "P n")
    case True with Suc.prems show ?thesis by auto
  next
    case False
    with Suc.prems have "filter P (rev [0..<n]) = i # rest" by simp
    from Suc.IH[OF this] False show ?thesis
      by (metis less_Suc_eq)
  qed
qed

lemma lastIndexOf_none:
  "lastIndexOf text pat < 0 \<longleftrightarrow> (\<forall>k \<le> length text. \<not> occursAt pat text k)"
proof -
  have "lastIndexOf text pat < 0
          \<longleftrightarrow> filter (occursAt pat text) (rev [0..<Suc (length text)]) = []"
    by (simp add: lastIndexOf_def split: list.splits)
  also have "\<dots> \<longleftrightarrow> (\<forall>k \<le> length text. \<not> occursAt pat text k)"
    by (auto simp del: upt_Suc simp: filter_empty_conv less_Suc_eq_le)
  finally show ?thesis .
qed

lemma lastIndexOf_last:
  assumes o: "occursAt pat text j" and p: "pat \<noteq> []"
    and l: "\<not> sublist pat (drop (Suc j) text)"
  shows "lastIndexOf text pat = int j"
proof -
  have jl: "j < length text" using occursAt_bound[OF p o] .
  then have "\<not> lastIndexOf text pat < 0"
    unfolding lastIndexOf_none using o less_imp_le by blast
  then obtain j' rest where
    f: "filter (occursAt pat text) (rev [0..<Suc (length text)]) = j' # rest"
    by (auto simp: lastIndexOf_def split: list.splits)
  from filter_rev_upt_Cons[OF f] have
    j': "occursAt pat text j'" "\<forall>k. j' < k \<and> k < Suc (length text) \<longrightarrow> \<not> occursAt pat text k"
    by blast+
  have "\<not> j' < j" using j'(2) o jl by auto
  moreover have "\<not> j < j'" using l j'(1) by (auto simp: sublist_drop_occurs)
  ultimately have "j' = j" by simp
  with f show ?thesis by (simp add: lastIndexOf_def)
qed

lemma indexOf_none:
  "indexOf text pat start < 0
     \<longleftrightarrow> (\<forall>k. start \<le> k \<and> k \<le> length text \<longrightarrow> \<not> occursAt pat text k)"
proof -
  have "indexOf text pat start < 0
          \<longleftrightarrow> filter (occursAt pat text) [start..<Suc (length text)] = []"
    by (simp add: indexOf_def split: list.splits)
  also have "\<dots> \<longleftrightarrow> (\<forall>k. start \<le> k \<and> k \<le> length text \<longrightarrow> \<not> occursAt pat text k)"
    by (auto simp del: upt_Suc simp: filter_empty_conv less_Suc_eq_le)
  finally show ?thesis .
qed

lemma indexOf_sublist:
  assumes "pat \<noteq> []"
  shows "indexOf text pat start < 0 \<longleftrightarrow> \<not> sublist pat (drop start text)"
  unfolding indexOf_none sublist_drop_occurs
  using occursAt_bound[OF assms] less_imp_le by blast

subsection \<open>The trailing directive\<close>

text \<open>Claim C9. When the text holds an opener \<open>[[\<close> after which no \<open>]]\<close> occurs, and \<open>j\<close> is
  the position of its last opener, \<^verbatim>\<open>stripTrailingDirective\<close> returns the text before
  \<open>j\<close>: everything from the last opener on is excluded from what the directive parser gets.
  When a \<open>]]\<close> occurs after the last opener, the text is returned unchanged.\<close>

theorem strip_trailing:
  "(occursAt ''[['' text i \<and> \<not> sublist '']]'' (drop (i + 2) text)
      \<and> occursAt ''[['' text j \<and> \<not> sublist ''[['' (drop (Suc j) text)
     \<longrightarrow> stripTrailingDirective text = take j text)
   \<and> (occursAt ''[['' text j \<and> \<not> sublist ''[['' (drop (Suc j) text)
        \<and> sublist '']]'' (drop (j + 2) text)
     \<longrightarrow> stripTrailingDirective text = text)"
proof (intro conjI impI)
  assume a: "occursAt ''[['' text i \<and> \<not> sublist '']]'' (drop (i + 2) text)
      \<and> occursAt ''[['' text j \<and> \<not> sublist ''[['' (drop (Suc j) text)"
  then have last: "lastIndexOf text ''[['' = int j" by (simp add: lastIndexOf_last)
  have "\<not> j < i" using a by (auto simp: sublist_drop_occurs)
  then have "\<not> sublist '']]'' (drop (j + 2) text)"
    using a unfolding sublist_drop_occurs by (meson add_le_mono1 le_trans not_le_imp_less)
  then have "indexOf text '']]'' (j + 2) < 0" by (simp add: indexOf_sublist)
  then show "stripTrailingDirective text = take j text"
    using last by (simp add: stripTrailingDirective_def Let_def nat_add_distrib)
next
  assume a: "occursAt ''[['' text j \<and> \<not> sublist ''[['' (drop (Suc j) text)
        \<and> sublist '']]'' (drop (j + 2) text)"
  then have last: "lastIndexOf text ''[['' = int j" by (simp add: lastIndexOf_last)
  have "\<not> indexOf text '']]'' (j + 2) < 0" using a by (simp add: indexOf_sublist)
  then show "stripTrailingDirective text = text"
    using last by (simp add: stripTrailingDirective_def Let_def nat_add_distrib)
qed

theorem strip_trailing_witness:
  "occursAt ''[['' ''Hi [[tts'' 3 \<and> \<not> sublist '']]'' (drop (3 + 2) ''Hi [[tts'')
   \<and> \<not> sublist ''[['' (drop (Suc 3) ''Hi [[tts'')
   \<and> stripTrailingDirective ''Hi [[tts'' = ''Hi ''
   \<and> occursAt ''[['' ''Hi [[tts]] there'' 3
   \<and> \<not> sublist ''[['' (drop (Suc 3) ''Hi [[tts]] there'')
   \<and> sublist '']]'' (drop (3 + 2) ''Hi [[tts]] there'')
   \<and> stripTrailingDirective ''Hi [[tts]] there'' = ''Hi [[tts]] there''"
proof -
  have h1: "occursAt ''[['' ''Hi [[tts'' 3" by code_simp
  have h2: "\<not> sublist '']]'' (drop (3 + 2) ''Hi [[tts'')" by code_simp
  have h3: "\<not> sublist ''[['' (drop (Suc 3) ''Hi [[tts'')" by code_simp
  have h4: "occursAt ''[['' ''Hi [[tts]] there'' 3" by code_simp
  have h5: "\<not> sublist ''[['' (drop (Suc 3) ''Hi [[tts]] there'')" by code_simp
  have h6: "sublist '']]'' (drop (3 + 2) ''Hi [[tts]] there'')" by code_simp
  have t: "take 3 ''Hi [[tts'' = ''Hi ''" by code_simp
  show ?thesis
    using strip_trailing[of "''Hi [[tts''" 3 3] strip_trailing[of "''Hi [[tts]] there''" 3 3]
      h1 h2 h3 h4 h5 h6 t by simp
qed

subsection \<open>The chunk of a sub-event\<close>

lemma computeChunk_own_delta:
  "computeChunk t (computeChunk t d c b) [] b' = computeChunk t d c b"
  by (simp add: computeChunk_def)

lemma processChunk_chunk_only:
  assumes "evType evt' = evType evt"
    and "computeChunk (evType evt) (deltaOf evt') (contentOf evt') (deltaBuffer s)
           = computeChunk (evType evt) (deltaOf evt) (contentOf evt) (deltaBuffer s)"
  shows "processChunk env evt' s = processChunk env evt s"
  using assms by (simp add: processChunk_def)

lemma handleMessageUpdate_chunk_only:
  assumes "msgRole evt' = msgRole evt" "evType evt' = evType evt"
    and "evContentIndex evt' = evContentIndex evt"
    and "\<not> isBlockTransition (contentIndexOf evt) s"
    and "computeChunk (evType evt) (deltaOf evt') (contentOf evt') (deltaBuffer s)
           = computeChunk (evType evt) (deltaOf evt) (contentOf evt) (deltaBuffer s)"
  shows "handleMessageUpdate env evt' s = handleMessageUpdate env evt s"
proof -
  have ci: "contentIndexOf evt' = contentIndexOf evt"
    using assms(3) by (simp add: contentIndexOf_def)
  have db: "deltaBuffer (trackContentIndex (contentIndexOf evt) s) = deltaBuffer s"
    by (simp add: trackContentIndex_def)
  have "processChunk env evt' (trackContentIndex (contentIndexOf evt) s)
          = processChunk env evt (trackContentIndex (contentIndexOf evt) s)"
    by (rule processChunk_chunk_only) (simp_all add: assms db)
  then show ?thesis
    using assms(1,2,4) ci by (simp add: handleMessageUpdate_def Let_def)
qed

text \<open>Claim C1. A sub-event whose \<^verbatim>\<open>contentIndex\<close> is non-negative and below the current
  block index is discarded: \<^verbatim>\<open>handleMessageUpdate\<close> returns the state as it was and sends
  nothing. This holds for every sub-event type, the three text types among them.\<close>

theorem late_event_discarded:
  "evContentIndex evt = Some ci \<Longrightarrow> 0 \<le> ci \<Longrightarrow> ci < currentTextContentIndex s
     \<Longrightarrow> handleMessageUpdate env evt s = (s, [])"
  by (simp add: handleMessageUpdate_def isLateEvent_def contentIndexOf_def Let_def)

theorem late_event_discarded_witness:
  "evContentIndex (textEnd ''Hello'' (Some 0)) = Some 0 \<and> (0::int) \<le> 0
   \<and> 0 < currentTextContentIndex ((startState TextEnd)\<lparr>currentTextContentIndex := 1\<rparr>)
   \<and> isTextEvent (evType (textEnd ''Hello'' (Some 0)))
   \<and> handleMessageUpdate plainEnv (textEnd ''Hello'' (Some 0))
        ((startState TextEnd)\<lparr>currentTextContentIndex := 1\<rparr>)
      = ((startState TextEnd)\<lparr>currentTextContentIndex := 1\<rparr>, [])"
  using late_event_discarded[of "textEnd ''Hello'' (Some 0)" 0
      "(startState TextEnd)\<lparr>currentTextContentIndex := 1\<rparr>" plainEnv]
  by (simp add: textEnd_def isTextEvent_def)

text \<open>Claim C3. For a \<^verbatim>\<open>text_start\<close> or \<^verbatim>\<open>text_end\<close> sub-event, with the cases taken in
  the order of the claim: a non-empty \<^verbatim>\<open>delta\<close> is the chunk; otherwise a non-empty
  \<^verbatim>\<open>content\<close> that starts with \<^verbatim>\<open>deltaBuffer\<close> gives its suffix past the buffer; a
  \<^verbatim>\<open>content\<close> that the buffer starts with gives the empty chunk; and a \<^verbatim>\<open>content\<close>
  that does not start with the buffer and is no substring of it is the chunk as it is. The
  handler treats the sub-event exactly as one that carries the chunk as its \<^verbatim>\<open>delta\<close>
  (when the sub-event opens no new block; the buffer is \<^verbatim>\<open>deltaBuffer\<close> then). After
  \<open>Partial\<close>, a \<^verbatim>\<open>text_end\<close> with the content \<open>Partial text done\<close> appends
  \<open> text done\<close>.\<close>

theorem chunk_extraction:
  "evType evt = ''text_start'' \<or> evType evt = ''text_end'' \<Longrightarrow>
   buffer = deltaBuffer s \<Longrightarrow>
   chunk = computeChunk (evType evt) (deltaOf evt) (contentOf evt) buffer \<Longrightarrow>
     (deltaOf evt \<noteq> [] \<longrightarrow> chunk = deltaOf evt)
   \<and> (deltaOf evt = [] \<and> contentOf evt \<noteq> [] \<and> prefix buffer (contentOf evt)
        \<longrightarrow> buffer @ chunk = contentOf evt)
   \<and> (deltaOf evt = [] \<and> contentOf evt \<noteq> [] \<and> prefix (contentOf evt) buffer
        \<longrightarrow> chunk = [])
   \<and> (deltaOf evt = [] \<and> contentOf evt \<noteq> [] \<and> \<not> prefix buffer (contentOf evt)
        \<and> \<not> sublist (contentOf evt) buffer
        \<longrightarrow> chunk = contentOf evt)
   \<and> (\<not> isBlockTransition (contentIndexOf evt) s
        \<longrightarrow> handleMessageUpdate env evt s
              = handleMessageUpdate env (evt\<lparr>evDelta := Some chunk, evContent := None\<rparr>) s)
   \<and> computeChunk ''text_end'' [] ''Partial text done'' ''Partial'' = '' text done''"
proof (intro conjI impI)
  assume t: "evType evt = ''text_start'' \<or> evType evt = ''text_end''"
    and b: "buffer = deltaBuffer s"
    and c: "chunk = computeChunk (evType evt) (deltaOf evt) (contentOf evt) buffer"
  show "deltaOf evt \<noteq> [] \<Longrightarrow> chunk = deltaOf evt"
    using t c by (auto simp: computeChunk_def)
  show "deltaOf evt = [] \<and> contentOf evt \<noteq> [] \<and> prefix buffer (contentOf evt)
          \<Longrightarrow> buffer @ chunk = contentOf evt"
    using t c by (auto simp: computeChunk_def prefix_def)
  show "deltaOf evt = [] \<and> contentOf evt \<noteq> [] \<and> prefix (contentOf evt) buffer \<Longrightarrow> chunk = []"
    using t c by (auto simp: computeChunk_def prefix_def)
  show "deltaOf evt = [] \<and> contentOf evt \<noteq> [] \<and> \<not> prefix buffer (contentOf evt)
          \<and> \<not> sublist (contentOf evt) buffer \<Longrightarrow> chunk = contentOf evt"
    using t c by (auto simp: computeChunk_def dest: prefix_imp_sublist)
  show "handleMessageUpdate env evt s
          = handleMessageUpdate env (evt\<lparr>evDelta := Some chunk, evContent := None\<rparr>) s"
    if "\<not> isBlockTransition (contentIndexOf evt) s"
    by (rule handleMessageUpdate_chunk_only[symmetric])
       (simp_all add: that b c deltaOf_def contentOf_def computeChunk_own_delta)
  show "computeChunk ''text_end'' [] ''Partial text done'' ''Partial'' = '' text done''"
    by (simp add: computeChunk_def)
qed

theorem chunk_extraction_witness:
  "fst (runUpdates plainEnv [textDelta ''Partial'' (Some 0)] (startState TextEnd))
     = partialStreamedState
   \<and> (evType (textEnd ''Partial text done'' (Some 0)) = ''text_start''
      \<or> evType (textEnd ''Partial text done'' (Some 0)) = ''text_end'')
   \<and> deltaOf (textEnd ''Partial text done'' (Some 0)) = []
   \<and> contentOf (textEnd ''Partial text done'' (Some 0)) = ''Partial text done''
   \<and> prefix (deltaBuffer partialStreamedState) ''Partial text done''
   \<and> \<not> isBlockTransition (contentIndexOf (textEnd ''Partial text done'' (Some 0)))
         partialStreamedState
   \<and> deltaBuffer partialStreamedState @ '' text done'' = ''Partial text done''
   \<and> handleMessageUpdate plainEnv (textEnd ''Partial text done'' (Some 0)) partialStreamedState
      = handleMessageUpdate plainEnv
          ((textEnd ''Partial text done'' (Some 0))
             \<lparr>evDelta := Some '' text done'', evContent := None\<rparr>) partialStreamedState"
proof -
  have r: "fst (runUpdates plainEnv [textDelta ''Partial'' (Some 0)] (startState TextEnd))
     = partialStreamedState" by code_simp
  have h1: "evType (textEnd ''Partial text done'' (Some 0)) = ''text_start''
      \<or> evType (textEnd ''Partial text done'' (Some 0)) = ''text_end''" by code_simp
  have h2: "deltaBuffer partialStreamedState = deltaBuffer partialStreamedState" by simp
  have h3: "'' text done''
      = computeChunk (evType (textEnd ''Partial text done'' (Some 0)))
          (deltaOf (textEnd ''Partial text done'' (Some 0)))
          (contentOf (textEnd ''Partial text done'' (Some 0))) (deltaBuffer partialStreamedState)"
    by code_simp
  have d: "deltaOf (textEnd ''Partial text done'' (Some 0)) = []" by code_simp
  have c: "contentOf (textEnd ''Partial text done'' (Some 0)) = ''Partial text done''"
    by code_simp
  have p: "prefix (deltaBuffer partialStreamedState) ''Partial text done''" by code_simp
  have n: "\<not> isBlockTransition (contentIndexOf (textEnd ''Partial text done'' (Some 0)))
         partialStreamedState" by code_simp
  have ne: "''Partial text done'' \<noteq> []" by simp
  note t = chunk_extraction[OF h1 h2 h3, of plainEnv]
  have c1: "deltaBuffer partialStreamedState @ '' text done'' = ''Partial text done''"
    using t d c p ne by metis
  have c2: "handleMessageUpdate plainEnv (textEnd ''Partial text done'' (Some 0))
              partialStreamedState
      = handleMessageUpdate plainEnv
          ((textEnd ''Partial text done'' (Some 0))
             \<lparr>evDelta := Some '' text done'', evContent := None\<rparr>) partialStreamedState"
    using t n by blast
  show ?thesis using r h1 d c p n c1 c2 by blast
qed

text \<open>Claim C10. A \<^verbatim>\<open>text_start\<close> or \<^verbatim>\<open>text_end\<close> sub-event with no \<^verbatim>\<open>delta\<close> and a
  non-empty \<^verbatim>\<open>content\<close> that neither starts with \<^verbatim>\<open>deltaBuffer\<close> nor is a prefix of it,
  but occurs inside it, has the empty chunk: nothing is appended to \<^verbatim>\<open>deltaBuffer\<close>, to
  \<^verbatim>\<open>blockBuffer\<close> or to the chunker, and (when the sub-event opens no new block) the
  handler treats it exactly as a sub-event that carries no text.\<close>

theorem internal_resend_noop:
  "evType evt = ''text_start'' \<or> evType evt = ''text_end'' \<Longrightarrow>
   deltaOf evt = [] \<Longrightarrow> contentOf evt \<noteq> [] \<Longrightarrow>
   \<not> prefix (deltaBuffer s) (contentOf evt) \<Longrightarrow>
   \<not> prefix (contentOf evt) (deltaBuffer s) \<Longrightarrow>
   sublist (contentOf evt) (deltaBuffer s) \<Longrightarrow>
     computeChunk (evType evt) (deltaOf evt) (contentOf evt) (deltaBuffer s) = []
   \<and> appendChunk env
        (computeChunk (evType evt) (deltaOf evt) (contentOf evt) (deltaBuffer s)) s = s
   \<and> (\<not> isBlockTransition (contentIndexOf evt) s
        \<longrightarrow> handleMessageUpdate env evt s
              = handleMessageUpdate env (evt\<lparr>evDelta := None, evContent := None\<rparr>) s)"
proof -
  assume t: "evType evt = ''text_start'' \<or> evType evt = ''text_end''"
    and d: "deltaOf evt = []" and c: "contentOf evt \<noteq> []"
    and p1: "\<not> prefix (deltaBuffer s) (contentOf evt)"
    and p2: "\<not> prefix (contentOf evt) (deltaBuffer s)"
    and sub: "sublist (contentOf evt) (deltaBuffer s)"
  have chunk: "computeChunk (evType evt) (deltaOf evt) (contentOf evt) (deltaBuffer s) = []"
    using t d c p1 p2 sub by (auto simp: computeChunk_def)
  have "handleMessageUpdate env (evt\<lparr>evDelta := None, evContent := None\<rparr>) s
          = handleMessageUpdate env evt s"
    if "\<not> isBlockTransition (contentIndexOf evt) s"
    by (rule handleMessageUpdate_chunk_only)
       (simp_all add: that chunk, simp add: deltaOf_def contentOf_def computeChunk_def)
  then show ?thesis using chunk by (simp add: appendChunk_def)
qed

theorem internal_resend_noop_witness:
  "fst (runUpdates plainEnv [textDelta ''Hello world'' (Some 0)] (startState TextEnd))
     = helloWorldState
   \<and> (evType (textEnd ''lo wo'' (Some 0)) = ''text_start''
      \<or> evType (textEnd ''lo wo'' (Some 0)) = ''text_end'')
   \<and> deltaOf (textEnd ''lo wo'' (Some 0)) = []
   \<and> contentOf (textEnd ''lo wo'' (Some 0)) \<noteq> []
   \<and> \<not> prefix (deltaBuffer helloWorldState) (contentOf (textEnd ''lo wo'' (Some 0)))
   \<and> \<not> prefix (contentOf (textEnd ''lo wo'' (Some 0))) (deltaBuffer helloWorldState)
   \<and> sublist (contentOf (textEnd ''lo wo'' (Some 0))) (deltaBuffer helloWorldState)
   \<and> \<not> isBlockTransition (contentIndexOf (textEnd ''lo wo'' (Some 0))) helloWorldState
   \<and> appendChunk plainEnv
        (computeChunk (evType (textEnd ''lo wo'' (Some 0))) (deltaOf (textEnd ''lo wo'' (Some 0)))
           (contentOf (textEnd ''lo wo'' (Some 0))) (deltaBuffer helloWorldState))
        helloWorldState
      = helloWorldState
   \<and> handleMessageUpdate plainEnv (textEnd ''lo wo'' (Some 0)) helloWorldState
      = handleMessageUpdate plainEnv
          ((textEnd ''lo wo'' (Some 0))\<lparr>evDelta := None, evContent := None\<rparr>) helloWorldState"
proof -
  have r: "fst (runUpdates plainEnv [textDelta ''Hello world'' (Some 0)] (startState TextEnd))
     = helloWorldState" by code_simp
  have h1: "evType (textEnd ''lo wo'' (Some 0)) = ''text_start''
      \<or> evType (textEnd ''lo wo'' (Some 0)) = ''text_end''" by code_simp
  have h2: "deltaOf (textEnd ''lo wo'' (Some 0)) = []" by code_simp
  have h3: "contentOf (textEnd ''lo wo'' (Some 0)) \<noteq> []" by code_simp
  have h4: "\<not> prefix (deltaBuffer helloWorldState) (contentOf (textEnd ''lo wo'' (Some 0)))"
    by code_simp
  have h5: "\<not> prefix (contentOf (textEnd ''lo wo'' (Some 0))) (deltaBuffer helloWorldState)"
    by code_simp
  have h6: "sublist (contentOf (textEnd ''lo wo'' (Some 0))) (deltaBuffer helloWorldState)"
    by code_simp
  have h7: "\<not> isBlockTransition (contentIndexOf (textEnd ''lo wo'' (Some 0))) helloWorldState"
    by code_simp
  show ?thesis
    using internal_resend_noop[OF h1 h2 h3 h4 h5 h6, of plainEnv] r h1 h2 h3 h4 h5 h6 h7
    by blast
qed

subsection \<open>The content block boundary\<close>




subsection \<open>Streams without a content index\<close>

lemma setIndex_reads:
  "deltaBuffer (setIndex k s) = deltaBuffer s"
  "blockBuffer (setIndex k s) = blockBuffer s"
  "cumulativeStreamedText (setIndex k s) = cumulativeStreamedText s"
  "lastStreamedAssistantCleaned (setIndex k s) = lastStreamedAssistantCleaned s"
  "partialBlockState (setIndex k s) = partialBlockState s"
  "streamReasoning (setIndex k s) = streamReasoning s"
  "shouldEmitPartialReplies (setIndex k s) = shouldEmitPartialReplies s"
  "blockReplyBreak (setIndex k s) = blockReplyBreak s"
  "currentTextContentIndex (setIndex k s) = k"
  "setIndex k (setIndex j s) = setIndex k s"
  by (simp_all add: setIndex_def)

lemma setIndex_writes:
  "(setIndex k s)\<lparr>deltaBuffer := a\<rparr> = setIndex k (s\<lparr>deltaBuffer := a\<rparr>)"
  "(setIndex k s)\<lparr>blockBuffer := a\<rparr> = setIndex k (s\<lparr>blockBuffer := a\<rparr>)"
  "(setIndex k s)\<lparr>cumulativeStreamedText := a\<rparr> = setIndex k (s\<lparr>cumulativeStreamedText := a\<rparr>)"
  "(setIndex k s)\<lparr>lastStreamedAssistant := b\<rparr> = setIndex k (s\<lparr>lastStreamedAssistant := b\<rparr>)"
  "(setIndex k s)\<lparr>lastStreamedAssistantCleaned := b\<rparr>
     = setIndex k (s\<lparr>lastStreamedAssistantCleaned := b\<rparr>)"
  "(setIndex k s)\<lparr>partialBlockState := ts\<rparr> = setIndex k (s\<lparr>partialBlockState := ts\<rparr>)"
  "(setIndex k s)\<lparr>emittedAssistantUpdate := e\<rparr> = setIndex k (s\<lparr>emittedAssistantUpdate := e\<rparr>)"
  by (simp_all add: setIndex_def)

lemma appendChunk_index:
  "indexFree env \<Longrightarrow> appendChunk env c (setIndex k s) = setIndex k (appendChunk env c s)"
  by (auto simp: appendChunk_def indexFree_def Let_def setIndex_reads setIndex_writes
      split: option.splits)

lemma streamReasoningStep_index:
  "indexFree env \<Longrightarrow>
   streamReasoningStep env (setIndex k s)
     = (case streamReasoningStep env s of (s', out) \<Rightarrow> (setIndex k s', out))"
  by (simp add: streamReasoningStep_def indexFree_def setIndex_reads)

lemma nextVisible_index: "nextVisible env (setIndex k s) = nextVisible env s"
  by (simp add: nextVisible_def setIndex_reads)

lemma consumeVisibleDelta_index:
  "indexFree env \<Longrightarrow>
   consumeVisibleDelta env c (setIndex k s)
     = (case consumeVisibleDelta env c s of (r, s') \<Rightarrow> (r, setIndex k s'))"
  by (simp add: consumeVisibleDelta_def Let_def indexFree_def setIndex_reads setIndex_writes
      split: prod.splits)

lemma liveUpdate_index:
  assumes "indexFree env"
  shows "liveUpdate env c (setIndex k s)
     = (case liveUpdate env c s of (s', out) \<Rightarrow> (setIndex k s', out))"
proof (cases "consumeVisibleDelta env c s")
  case (Pair r s1)
  then have "consumeVisibleDelta env c (setIndex k s) = (r, setIndex k s1)"
    using consumeVisibleDelta_index[OF assms] by simp
  with Pair show ?thesis
    by (simp add: liveUpdate_def nextVisible_index Let_def setIndex_reads setIndex_writes
        split: prod.splits)
qed

lemma drainChunker_index:
  "indexFree env \<Longrightarrow>
   drainChunker env (setIndex k s)
     = (case drainChunker env s of (s', out) \<Rightarrow> (setIndex k s', out))"
  by (auto simp: drainChunker_def indexFree_def setIndex_reads split: option.splits)

lemma chunkerHasBuffered_index:
  "indexFree env \<Longrightarrow> chunkerHasBuffered env (setIndex k s) = chunkerHasBuffered env s"
  by (auto simp: chunkerHasBuffered_def indexFree_def split: option.splits)

lemma forceDrainChunker_index:
  "indexFree env \<Longrightarrow>
   forceDrainChunker env (setIndex k s)
     = (case forceDrainChunker env s of (s', out) \<Rightarrow> (setIndex k s', out))"
  by (auto simp: forceDrainChunker_def indexFree_def split: option.splits prod.splits)

lemma flushAtTextEnd_index:
  assumes "indexFree env"
  shows "flushAtTextEnd env t (setIndex k s)
     = (case flushAtTextEnd env t s of (s', out) \<Rightarrow> (setIndex k s', out))"
proof -
  from assms have e: "\<And>t s k. emitBlockChunk env t (setIndex k s)
                = (case emitBlockChunk env t s of (s', out) \<Rightarrow> (setIndex k s', out))"
    unfolding indexFree_def by blast
  show ?thesis
    by (simp add: flushAtTextEnd_def chunkerHasBuffered_index[OF assms]
        forceDrainChunker_index[OF assms] e setIndex_reads setIndex_writes split: prod.splits)
qed

lemma processChunk_index:
  assumes "indexFree env"
  shows "processChunk env u (setIndex k s)
     = (case processChunk env u s of (s', out) \<Rightarrow> (setIndex k s', out))"
  by (simp add: processChunk_def Let_def appendChunk_index[OF assms]
      streamReasoningStep_index[OF assms] liveUpdate_index[OF assms]
      drainChunker_index[OF assms] flushAtTextEnd_index[OF assms] setIndex_reads
      split: prod.splits)

lemma processChunk_keeps_index:
  assumes "indexFree env" and "processChunk env u s = (s', out)"
  shows "currentTextContentIndex s' = currentTextContentIndex s"
proof -
  have "setIndex (currentTextContentIndex s) s = s" by (simp add: setIndex_def)
  then have "processChunk env u s = (setIndex (currentTextContentIndex s) s', out)"
    using processChunk_index[OF assms(1), of u "currentTextContentIndex s" s] assms(2) by simp
  with assms(2) have "s' = setIndex (currentTextContentIndex s) s'" by simp
  then show ?thesis by (metis setIndex_reads(9))
qed

lemma indexless_step:
  assumes f: "indexFree env" and n: "evContentIndex u = None"
    and s0: "currentTextContentIndex s \<le> 0" and t0: "currentTextContentIndex t \<le> 0"
    and st: "setIndex 0 t = setIndex 0 s"
    and hs: "handleMessageUpdate env u s = (s', out)"
    and ht: "handleMessageUpdate env (u\<lparr>evContentIndex := Some 0\<rparr>) t = (t', out')"
  shows "out' = out \<and> setIndex 0 t' = setIndex 0 s'
         \<and> currentTextContentIndex s' = currentTextContentIndex s
         \<and> currentTextContentIndex t' \<le> 0"
proof (cases "msgRole u = ''assistant'' \<and> isTextEvent (evType u)")
  case False
  then have "handleMessageUpdate env u s = (s, [])"
    and "handleMessageUpdate env (u\<lparr>evContentIndex := Some 0\<rparr>) t = (t, [])"
    by (auto simp: handleMessageUpdate_def)
  then show ?thesis using hs ht st s0 t0 by simp
next
  case True
  have ps: "processChunk env u s = (s', out)"
    using True hs n
    by (simp add: handleMessageUpdate_def contentIndexOf_def isLateEvent_def
        isBlockTransition_def trackContentIndex_def Let_def split: prod.splits)
  have "processChunk env (u\<lparr>evContentIndex := Some 0\<rparr>) (setIndex 0 t) = (t', out')"
    using True ht t0
    by (simp add: handleMessageUpdate_def contentIndexOf_def isLateEvent_def
        isBlockTransition_def trackContentIndex_def Let_def setIndex_def split: prod.splits)
  moreover have "processChunk env (u\<lparr>evContentIndex := Some 0\<rparr>) (setIndex 0 t)
                   = processChunk env u (setIndex 0 t)"
    by (simp add: processChunk_def deltaOf_def contentOf_def)
  ultimately have "processChunk env u (setIndex 0 s) = (t', out')" using st by simp
  then have "(setIndex 0 s', out) = (t', out')"
    using processChunk_index[OF f, of u 0 s] ps by simp
  then show ?thesis
    using processChunk_keeps_index[OF f ps] by (auto simp: setIndex_reads)
qed

lemma indexless_run:
  assumes f: "indexFree env"
  shows "\<forall>u \<in> set us. evContentIndex u = None \<Longrightarrow>
     currentTextContentIndex s \<le> 0 \<Longrightarrow> currentTextContentIndex t \<le> 0 \<Longrightarrow>
     setIndex 0 t = setIndex 0 s \<Longrightarrow>
       snd (runUpdates env (withIndexZero us) t) = snd (runUpdates env us s)
     \<and> setIndex 0 (fst (runUpdates env (withIndexZero us) t))
         = setIndex 0 (fst (runUpdates env us s))
     \<and> currentTextContentIndex (fst (runUpdates env us s)) = currentTextContentIndex s"
proof (induction us arbitrary: s t)
  case Nil
  then show ?case by (simp add: withIndexZero_def)
next
  case (Cons u us)
  obtain s' out where hs: "handleMessageUpdate env u s = (s', out)" by fastforce
  obtain t' out' where ht: "handleMessageUpdate env (u\<lparr>evContentIndex := Some 0\<rparr>) t = (t', out')"
    by fastforce
  have n: "evContentIndex u = None" using Cons.prems(1) by simp
  from indexless_step[OF f n Cons.prems(2,3,4) hs ht]
  have r: "out' = out" "setIndex 0 t' = setIndex 0 s'"
    "currentTextContentIndex s' = currentTextContentIndex s" "currentTextContentIndex t' \<le> 0"
    by blast+
  have s'0: "currentTextContentIndex s' \<le> 0" using r(3) Cons.prems(2) by simp
  have rest: "\<forall>u \<in> set us. evContentIndex u = None" using Cons.prems(1) by simp
  have "runUpdates env (u # us) s = (fst (runUpdates env us s'), out @ snd (runUpdates env us s'))"
    using hs by (simp add: case_prod_beta)
  moreover have "runUpdates env (withIndexZero (u # us)) t
      = (fst (runUpdates env (withIndexZero us) t'), out' @ snd (runUpdates env (withIndexZero us) t'))"
    using ht by (simp add: withIndexZero_def case_prod_beta)
  ultimately show ?case
    using Cons.IH[OF rest s'0 r(4) r(2)] r(1,3) by simp
qed

text \<open>The block index at the end of the stream with \<^verbatim>\<open>contentIndex\<close> 0 on every sub-event:
  0 once a sub-event has been accepted (assistant role, a text type), unchanged before.\<close>

lemma indexed_step_index:
  assumes f: "indexFree env" and t0: "currentTextContentIndex t \<le> 0"
    and ht: "handleMessageUpdate env (u\<lparr>evContentIndex := Some 0\<rparr>) t = (t', out')"
  shows "currentTextContentIndex t'
           = (if msgRole u = ''assistant'' \<and> isTextEvent (evType u) then 0
              else currentTextContentIndex t)"
proof (cases "msgRole u = ''assistant'' \<and> isTextEvent (evType u)")
  case False
  then have "handleMessageUpdate env (u\<lparr>evContentIndex := Some 0\<rparr>) t = (t, [])"
    by (auto simp: handleMessageUpdate_def)
  with ht False show ?thesis by auto
next
  case True
  have p: "processChunk env (u\<lparr>evContentIndex := Some 0\<rparr>) (setIndex 0 t) = (t', out')"
    using True ht t0
    by (simp add: handleMessageUpdate_def contentIndexOf_def isLateEvent_def
        isBlockTransition_def trackContentIndex_def Let_def setIndex_def split: prod.splits)
  have "currentTextContentIndex t' = currentTextContentIndex (setIndex 0 t)"
    by (rule processChunk_keeps_index[OF f p])
  with True show ?thesis by (simp add: setIndex_reads)
qed

lemma indexed_run_index:
  assumes f: "indexFree env"
  shows "currentTextContentIndex t \<le> 0 \<Longrightarrow>
     currentTextContentIndex (fst (runUpdates env (withIndexZero us) t))
       = (if \<exists>u \<in> set us. msgRole u = ''assistant'' \<and> isTextEvent (evType u) then 0
          else currentTextContentIndex t)"
proof (induction us arbitrary: t)
  case Nil
  then show ?case by (simp add: withIndexZero_def)
next
  case (Cons u us)
  obtain t' out' where ht: "handleMessageUpdate env (u\<lparr>evContentIndex := Some 0\<rparr>) t = (t', out')"
    by fastforce
  note i = indexed_step_index[OF f Cons.prems ht]
  have t'0: "currentTextContentIndex t' \<le> 0" using i Cons.prems by simp
  have r: "fst (runUpdates env (withIndexZero (u # us)) t)
             = fst (runUpdates env (withIndexZero us) t')"
    using ht by (simp add: withIndexZero_def case_prod_beta)
  show ?case using Cons.IH[OF t'0] i r by auto
qed

text \<open>Claim C7, as amended. Take a stream of sub-events none of which carries a
  \<^verbatim>\<open>contentIndex\<close>, handled from a state whose block index is unset (or 0), with methods
  of \<^verbatim>\<open>ctx\<close> that do not use the index. The same stream with \<^verbatim>\<open>contentIndex\<close> 0 on
  every sub-event sends exactly the same output, and ends in the same state but for
  \<^verbatim>\<open>currentTextContentIndex\<close>. The stream without index leaves that field as it was. The
  stream with index 0 ends with 0 in it when the stream holds a sub-event that the handler
  accepts (assistant role and a type among \<^verbatim>\<open>text_delta\<close>, \<^verbatim>\<open>text_start\<close>,
  \<^verbatim>\<open>text_end\<close>), and leaves it as it was otherwise.\<close>

theorem indexless_equivalence:
  assumes "indexFree env" and "\<forall>u \<in> set us. evContentIndex u = None"
    and "currentTextContentIndex s \<le> 0"
  shows "snd (runUpdates env (withIndexZero us) s) = snd (runUpdates env us s)
     \<and> setIndex 0 (fst (runUpdates env (withIndexZero us) s))
         = setIndex 0 (fst (runUpdates env us s))
     \<and> currentTextContentIndex (fst (runUpdates env us s)) = currentTextContentIndex s
     \<and> currentTextContentIndex (fst (runUpdates env (withIndexZero us) s))
         = (if \<exists>u \<in> set us. msgRole u = ''assistant'' \<and> isTextEvent (evType u) then 0
            else currentTextContentIndex s)"
  using indexless_run[OF assms(1,2,3,3)] indexed_run_index[OF assms(1,3)] by simp

theorem indexless_equivalence_witness:
  "indexFree plainEnv
   \<and> evContentIndex (textDelta ''Hello '' None) = None
   \<and> evContentIndex (textDelta ''world!'' None) = None
   \<and> evContentIndex thinkingDelta = None
   \<and> currentTextContentIndex (startState MessageEnd) \<le> 0
   \<and> snd (runUpdates plainEnv
             (withIndexZero [textDelta ''Hello '' None, textDelta ''world!'' None])
             (startState MessageEnd))
       = snd (runUpdates plainEnv [textDelta ''Hello '' None, textDelta ''world!'' None]
                (startState MessageEnd))
   \<and> setIndex 0 (fst (runUpdates plainEnv
             (withIndexZero [textDelta ''Hello '' None, textDelta ''world!'' None])
             (startState MessageEnd)))
       = setIndex 0 (fst (runUpdates plainEnv
             [textDelta ''Hello '' None, textDelta ''world!'' None] (startState MessageEnd)))
   \<and> currentTextContentIndex (fst (runUpdates plainEnv
             [textDelta ''Hello '' None, textDelta ''world!'' None] (startState MessageEnd)))
       = -1
   \<and> currentTextContentIndex (fst (runUpdates plainEnv
             (withIndexZero [textDelta ''Hello '' None, textDelta ''world!'' None])
             (startState MessageEnd)))
       = 0
   \<and> currentTextContentIndex (fst (runUpdates plainEnv (withIndexZero [thinkingDelta])
             (startState MessageEnd)))
       = -1
   \<and> agentEventTexts (snd (runUpdates plainEnv
             [textDelta ''Hello '' None, textDelta ''world!'' None] (startState MessageEnd)))
       = [''Hello'', ''Hello world!'']"
proof -
  have h1: "indexFree plainEnv"
    by (simp add: indexFree_def plainEnv_def setIndex_def)
  have h2: "\<forall>u \<in> set [textDelta ''Hello '' None, textDelta ''world!'' None].
              evContentIndex u = None"
    by (simp add: textDelta_def)
  have h2': "\<forall>u \<in> set [thinkingDelta]. evContentIndex u = None"
    by (simp add: thinkingDelta_def)
  have h3: "currentTextContentIndex (startState MessageEnd) \<le> 0"
    by (simp add: startState_def)
  have i: "currentTextContentIndex (startState MessageEnd) = -1"
    by (simp add: startState_def)
  have a: "\<exists>u \<in> set [textDelta ''Hello '' None, textDelta ''world!'' None].
             msgRole u = ''assistant'' \<and> isTextEvent (evType u)"
    by (simp add: textDelta_def isTextEvent_def)
  have na: "\<not> (\<exists>u \<in> set [thinkingDelta]. msgRole u = ''assistant'' \<and> isTextEvent (evType u))"
    by (simp add: thinkingDelta_def isTextEvent_def)
  have e: "agentEventTexts (snd (runUpdates plainEnv
             [textDelta ''Hello '' None, textDelta ''world!'' None] (startState MessageEnd)))
       = [''Hello'', ''Hello world!'']"
    by code_simp
  note A = indexless_equivalence[OF h1 h2 h3]
  note B = indexless_equivalence[OF h1 h2' h3]
  have c1: "currentTextContentIndex (fst (runUpdates plainEnv
             [textDelta ''Hello '' None, textDelta ''world!'' None] (startState MessageEnd)))
       = -1" using A i by simp
  have c2: "currentTextContentIndex (fst (runUpdates plainEnv
             (withIndexZero [textDelta ''Hello '' None, textDelta ''world!'' None])
             (startState MessageEnd))) = 0" using A a by simp
  have c3: "currentTextContentIndex (fst (runUpdates plainEnv (withIndexZero [thinkingDelta])
             (startState MessageEnd))) = -1" using B na i by simp
  have n1: "evContentIndex (textDelta ''Hello '' None) = None" by (simp add: textDelta_def)
  have n2: "evContentIndex (textDelta ''world!'' None) = None" by (simp add: textDelta_def)
  have n3: "evContentIndex thinkingDelta = None" by (simp add: thinkingDelta_def)
  show ?thesis using A h1 n1 n2 n3 h3 c1 c2 c3 e by blast
qed

text \<open>The two final states are not equal, as the claim has it: after one accepted
  sub-event the block index is 0 in the stream with index and still \<open>-1\<close> in the stream
  without.\<close>

theorem indexless_equivalence_counterexample:
  "fst (runUpdates plainEnv (withIndexZero [textDelta ''Hi'' None]) (startState MessageEnd))
     \<noteq> fst (runUpdates plainEnv [textDelta ''Hi'' None] (startState MessageEnd))
   \<and> currentTextContentIndex
        (fst (runUpdates plainEnv (withIndexZero [textDelta ''Hi'' None])
                (startState MessageEnd))) = 0
   \<and> currentTextContentIndex
        (fst (runUpdates plainEnv [textDelta ''Hi'' None] (startState MessageEnd))) = -1"
  by code_simp

subsection \<open>The cumulative text\<close>

lemma agentEventTexts_append:
  "agentEventTexts (xs @ ys) = agentEventTexts xs @ agentEventTexts ys"
  by (induction xs rule: agentEventTexts.induct) simp_all

lemma agentEventTexts_quiet:
  "filter isAssistantUpdate out = [] \<Longrightarrow> agentEventTexts out = []"
  by (induction out rule: agentEventTexts.induct) (simp_all split: if_splits)

lemma prefixChain_sorted: "prefixChain ts = sorted_wrt prefix ts"
proof (induction ts rule: prefixChain.induct)
  case (3 t u ts)
  have "transp (prefix :: string \<Rightarrow> string \<Rightarrow> bool)"
    by (rule transpI) (rule prefix_order.trans)
  then show ?case using 3 by (simp only: prefixChain.simps sorted_wrt2)
qed simp_all

lemma chain_join:
  assumes "prefixChain (a # xs @ [b])" and "prefixChain (b # ys @ [c])"
  shows "prefixChain (a # (xs @ ys) @ [c])"
proof -
  from assms have 1: "prefix a b" "\<forall>x\<in>set xs. prefix a x \<and> prefix x b" "sorted_wrt prefix xs"
    and 2: "prefix b c" "\<forall>y\<in>set ys. prefix b y \<and> prefix y c" "sorted_wrt prefix ys"
    by (auto simp: prefixChain_sorted sorted_wrt_append)
  show ?thesis
    unfolding prefixChain_sorted using 1 2
    by (auto simp: sorted_wrt_append intro: prefix_order.trans)
qed

text \<open>Each phase of the update handler either keeps the cumulative text and sends no agent
  event, or (the live update) extends it and sends it.\<close>

lemma flushAtBoundary_cum:
  assumes "keepsCumulative env" "sendsNoUpdate env" "flushAtBoundary env s = (s', out)"
  shows "cumulativeStreamedText s' = cumulativeStreamedText s \<and> agentEventTexts out = []"
proof (cases "blockChunker env")
  case None
  with assms(1,2) have
    k: "\<And>t s. cumulativeStreamedText (fst (emitBlockChunk env t s)) = cumulativeStreamedText s"
    and q: "\<And>t s. filter isAssistantUpdate (snd (emitBlockChunk env t s)) = []"
    by (auto simp: keepsCumulative_def sendsNoUpdate_def)
  show ?thesis
  proof (cases "blockBuffer s = []")
    case True
    with None assms(3) show ?thesis by (simp add: flushAtBoundary_def)
  next
    case False
    with None assms(3) have "s' = (fst (emitBlockChunk env (blockBuffer s) s))\<lparr>blockBuffer := []\<rparr>"
      and "out = snd (emitBlockChunk env (blockBuffer s) s)"
      by (auto simp: flushAtBoundary_def split: prod.splits)
    then show ?thesis using k q by (simp add: agentEventTexts_quiet)
  qed
next
  case (Some c)
  with assms(1,2) have
    k: "\<And>f s. cumulativeStreamedText (fst (cDrain c f (emitBlockChunk env) s))
                = cumulativeStreamedText s"
    and r: "\<And>s. cumulativeStreamedText (cReset c s) = cumulativeStreamedText s"
    and q: "\<And>f s. filter isAssistantUpdate (snd (cDrain c f (emitBlockChunk env) s)) = []"
    by (auto simp: keepsCumulative_def sendsNoUpdate_def)
  from Some assms(3) have "s' = cReset c (fst (cDrain c True (emitBlockChunk env) s))"
    and "out = snd (cDrain c True (emitBlockChunk env) s)"
    by (auto simp: flushAtBoundary_def split: prod.splits)
  then show ?thesis using k r q by (simp add: agentEventTexts_quiet)
qed

lemma contentBlockTransition_cum:
  assumes "keepsCumulative env" "sendsNoUpdate env" "contentBlockTransition env s = (s', out)"
  shows "prefix (cumulativeStreamedText s) (cumulativeStreamedText s')
         \<and> agentEventTexts out = []"
proof -
  obtain sf where f: "flushAtBoundary env s = (sf, out)" and s': "s' = resetBlockAccumulators env sf"
    using assms(3) by (auto simp: contentBlockTransition_def split: prod.splits)
  from flushAtBoundary_cum[OF assms(1,2) f] s' show ?thesis
    by (auto simp: resetBlockAccumulators_def Let_def)
qed

lemma appendChunk_cum:
  "keepsCumulative env \<Longrightarrow>
   cumulativeStreamedText (appendChunk env c s) = cumulativeStreamedText s"
  by (auto simp: appendChunk_def keepsCumulative_def Let_def split: option.splits)

lemma streamReasoningStep_cum:
  assumes "keepsCumulative env" "sendsNoUpdate env" "streamReasoningStep env s = (s', out)"
  shows "cumulativeStreamedText s' = cumulativeStreamedText s \<and> agentEventTexts out = []"
proof (cases "streamReasoning s")
  case False
  with assms(3) show ?thesis by (simp add: streamReasoningStep_def)
next
  case True
  with assms(3) have "s' = fst (emitReasoningStream env
        (extractThinkingFromTaggedStream env (deltaBuffer s)) s)"
    and "out = snd (emitReasoningStream env
        (extractThinkingFromTaggedStream env (deltaBuffer s)) s)"
    by (auto simp: streamReasoningStep_def)
  then show ?thesis using assms(1,2)
    by (simp add: keepsCumulative_def sendsNoUpdate_def agentEventTexts_quiet)
qed

lemma consumeVisibleDelta_cum:
  "keepsCumulative env \<Longrightarrow>
   cumulativeStreamedText (snd (consumeVisibleDelta env c s)) = cumulativeStreamedText s"
  by (simp add: consumeVisibleDelta_def keepsCumulative_def Let_def split: prod.splits)

lemma liveUpdate_cum:
  assumes "keepsCumulative env" "liveUpdate env c s = (s', out)"
  shows "prefix (cumulativeStreamedText s) (cumulativeStreamedText s')
         \<and> (agentEventTexts out = [] \<or> agentEventTexts out = [cumulativeStreamedText s'])"
proof -
  obtain r s1 where c: "consumeVisibleDelta env c s = (r, s1)" by fastforce
  have "cumulativeStreamedText s1 = cumulativeStreamedText s"
    using consumeVisibleDelta_cum[OF assms(1), of c s] c by simp
  then show ?thesis using assms(2) c
    by (auto simp: liveUpdate_def Let_def split: if_splits prod.splits)
qed

lemma drainChunker_cum:
  assumes "keepsCumulative env" "sendsNoUpdate env" "drainChunker env s = (s', out)"
  shows "cumulativeStreamedText s' = cumulativeStreamedText s \<and> agentEventTexts out = []"
proof (cases "blockChunker env")
  case None
  with assms(3) show ?thesis by (auto simp: drainChunker_def split: if_splits)
next
  case (Some c)
  with assms(1,2) have
    k: "\<And>f s. cumulativeStreamedText (fst (cDrain c f (emitBlockChunk env) s))
                = cumulativeStreamedText s"
    and q: "\<And>f s. filter isAssistantUpdate (snd (cDrain c f (emitBlockChunk env) s)) = []"
    by (auto simp: keepsCumulative_def sendsNoUpdate_def)
  from Some assms(3) have "(s', out) = (s, []) \<or> (s' = fst (cDrain c False (emitBlockChunk env) s)
     \<and> out = snd (cDrain c False (emitBlockChunk env) s))"
    by (auto simp: drainChunker_def split: if_splits)
  then show ?thesis using k q by (auto simp: agentEventTexts_quiet)
qed

lemma forceDrainChunker_cum:
  assumes "keepsCumulative env" "sendsNoUpdate env" "forceDrainChunker env s = (s', out)"
  shows "cumulativeStreamedText s' = cumulativeStreamedText s \<and> agentEventTexts out = []
         \<and> filter isAssistantUpdate out = []"
proof (cases "blockChunker env")
  case None
  with assms(3) show ?thesis by (auto simp: forceDrainChunker_def)
next
  case (Some c)
  with assms(1,2) have
    k: "\<And>f s. cumulativeStreamedText (fst (cDrain c f (emitBlockChunk env) s))
                = cumulativeStreamedText s"
    and r: "\<And>s. cumulativeStreamedText (cReset c s) = cumulativeStreamedText s"
    and q: "\<And>f s. filter isAssistantUpdate (snd (cDrain c f (emitBlockChunk env) s)) = []"
    by (auto simp: keepsCumulative_def sendsNoUpdate_def)
  from Some assms(3) have "s' = cReset c (fst (cDrain c True (emitBlockChunk env) s))"
    and "out = snd (cDrain c True (emitBlockChunk env) s)"
    by (auto simp: forceDrainChunker_def split: prod.splits)
  then show ?thesis using k r q by (simp add: agentEventTexts_quiet)
qed

lemma flushAtTextEnd_cum:
  assumes "keepsCumulative env" "sendsNoUpdate env" "flushAtTextEnd env t s = (s', out)"
  shows "cumulativeStreamedText s' = cumulativeStreamedText s \<and> agentEventTexts out = []"
proof -
  from assms(1,2) have
    k: "\<And>t s. cumulativeStreamedText (fst (emitBlockChunk env t s)) = cumulativeStreamedText s"
    and q: "\<And>t s. filter isAssistantUpdate (snd (emitBlockChunk env t s)) = []"
    by (auto simp: keepsCumulative_def sendsNoUpdate_def)
  show ?thesis
  proof (cases "t = ''text_end'' \<and> blockReplyBreak s = TextEnd")
    case False
    then have "flushAtTextEnd env t s = (s, [])" by (auto simp: flushAtTextEnd_def)
    with assms(3) show ?thesis by simp
  next
    case te: True
    show ?thesis
    proof (cases "chunkerHasBuffered env s")
      case True
      with te have "flushAtTextEnd env t s = forceDrainChunker env s"
        by (simp add: flushAtTextEnd_def)
      with assms(3) forceDrainChunker_cum[OF assms(1,2)] show ?thesis by simp
    next
      case nb: False
      show ?thesis
      proof (cases "blockBuffer s = []")
        case True
        with te nb have "flushAtTextEnd env t s = (s, [])" by (simp add: flushAtTextEnd_def)
        with assms(3) show ?thesis by simp
      next
        case False
        with te nb have "flushAtTextEnd env t s
            = ((fst (emitBlockChunk env (blockBuffer s) s))\<lparr>blockBuffer := []\<rparr>,
               snd (emitBlockChunk env (blockBuffer s) s))"
          by (simp add: flushAtTextEnd_def case_prod_beta)
        with assms(3) show ?thesis using k q by (auto simp: agentEventTexts_quiet)
      qed
    qed
  qed
qed

lemma processChunk_cum:
  assumes k: "keepsCumulative env" and q: "sendsNoUpdate env"
    and p: "processChunk env u s = (s', out)"
  shows "prefix (cumulativeStreamedText s) (cumulativeStreamedText s')
         \<and> (agentEventTexts out = [] \<or> agentEventTexts out = [cumulativeStreamedText s'])"
proof -
  define chunk where "chunk = computeChunk (evType u) (deltaOf u) (contentOf u) (deltaBuffer s)"
  define s1 where "s1 = appendChunk env chunk s"
  obtain s2 out2 where r: "streamReasoningStep env s1 = (s2, out2)" by fastforce
  obtain s3 out3 where l: "liveUpdate env chunk s2 = (s3, out3)" by fastforce
  obtain s4 out4 where d: "drainChunker env s3 = (s4, out4)" by fastforce
  obtain s5 out5 where f: "flushAtTextEnd env (evType u) s4 = (s5, out5)" by fastforce
  have e: "s' = s5" "out = out2 @ out3 @ out4 @ out5"
    using p r l d f by (simp_all add: processChunk_def chunk_def s1_def Let_def)
  have c1: "cumulativeStreamedText s1 = cumulativeStreamedText s"
    by (simp add: s1_def appendChunk_cum[OF k])
  note c2 = streamReasoningStep_cum[OF k q r]
  note c3 = liveUpdate_cum[OF k l]
  note c4 = drainChunker_cum[OF k q d]
  note c5 = flushAtTextEnd_cum[OF k q f]
  show ?thesis
    using e c1 c2 c3 c4 c5 by (auto simp: agentEventTexts_append)
qed

lemma handleMessageUpdate_cum:
  assumes k: "keepsCumulative env" and q: "sendsNoUpdate env"
    and h: "handleMessageUpdate env u s = (s', out)"
  shows "prefixChain (cumulativeStreamedText s # agentEventTexts out @ [cumulativeStreamedText s'])"
proof (cases "msgRole u = ''assistant'' \<and> isTextEvent (evType u)
              \<and> \<not> isLateEvent (contentIndexOf u) s")
  case False
  then have "handleMessageUpdate env u s = (s, [])"
    by (auto simp: handleMessageUpdate_def Let_def)
  with h show ?thesis by simp
next
  case True
  obtain s1 out1 where t: "(if isBlockTransition (contentIndexOf u) s
       then contentBlockTransition env s else (s, [])) = (s1, out1)" by fastforce
  obtain s3 out3 where p: "processChunk env u (trackContentIndex (contentIndexOf u) s1) = (s3, out3)"
    by fastforce
  have e: "s' = s3" "out = out1 @ out3"
    using True h t p by (simp_all add: handleMessageUpdate_def Let_def)
  have c1: "prefix (cumulativeStreamedText s) (cumulativeStreamedText s1)
            \<and> agentEventTexts out1 = []"
    using t contentBlockTransition_cum[OF k q] by (auto split: if_splits)
  have c2: "cumulativeStreamedText (trackContentIndex (contentIndexOf u) s1)
              = cumulativeStreamedText s1"
    by (simp add: trackContentIndex_def)
  from processChunk_cum[OF k q p] c1 c2 e show ?thesis
    by (auto simp: agentEventTexts_append intro: prefix_order.trans)
qed

lemma runUpdates_cum:
  assumes k: "keepsCumulative env" and q: "sendsNoUpdate env"
  shows "prefixChain (cumulativeStreamedText s # agentEventTexts (snd (runUpdates env us s))
           @ [cumulativeStreamedText (fst (runUpdates env us s))])"
proof (induction us arbitrary: s)
  case Nil
  then show ?case by simp
next
  case (Cons u us)
  obtain s1 out1 where h: "handleMessageUpdate env u s = (s1, out1)" by fastforce
  have r: "runUpdates env (u # us) s
             = (fst (runUpdates env us s1), out1 @ snd (runUpdates env us s1))"
    using h by (simp add: case_prod_beta)
  from chain_join[OF handleMessageUpdate_cum[OF k q h] Cons.IH[of s1]]
  show ?case using r by (simp add: agentEventTexts_append)
qed

lemma fallbackUpdate_cum:
  "cumulativeStreamedText (fst (fallbackUpdate env c m h s)) = cumulativeStreamedText s"
  by (simp add: fallbackUpdate_def Let_def)

lemma maybeEmitReasoning_cum:
  "cumulativeStreamedText (fst (maybeEmitReasoning b r s)) = cumulativeStreamedText s"
  by (simp add: maybeEmitReasoning_def)

lemma finalBlockReply_cum:
  assumes k: "keepsCumulative env"
  shows "cumulativeStreamedText (fst (finalBlockReply env txt s)) = cumulativeStreamedText s"
proof -
  from k have c: "\<And>t f s. cumulativeStreamedText (snd (consumeReplyDirectives env t f s))
                = cumulativeStreamedText s"
    by (simp add: keepsCumulative_def)
  have d: "cumulativeStreamedText (fst (forceDrainChunker env s)) = cumulativeStreamedText s"
  proof (cases "blockChunker env")
    case None then show ?thesis by (simp add: forceDrainChunker_def)
  next
    case (Some ch)
    with k have "\<And>f s. cumulativeStreamedText (fst (cDrain ch f (emitBlockChunk env) s))
                = cumulativeStreamedText s"
      and "\<And>s. cumulativeStreamedText (cReset ch s) = cumulativeStreamedText s"
      by (auto simp: keepsCumulative_def)
    with Some show ?thesis by (simp add: forceDrainChunker_def case_prod_beta)
  qed
  show ?thesis
    by (simp add: finalBlockReply_def Let_def case_prod_beta c d)
qed

lemma tailReply_cum:
  "keepsCumulative env \<Longrightarrow>
   cumulativeStreamedText (fst (tailReply env s)) = cumulativeStreamedText s"
  by (simp add: tailReply_def keepsCumulative_def case_prod_beta)

lemma resetAtMessageEnd_cum:
  "keepsCumulative env \<Longrightarrow>
   cumulativeStreamedText (resetAtMessageEnd env s) = cumulativeStreamedText s"
  by (auto simp: resetAtMessageEnd_def keepsCumulative_def Let_def split: option.splits)

lemma handleMessageEnd_cum:
  assumes k: "keepsCumulative env"
  shows "cumulativeStreamedText (fst (handleMessageEnd env msg s)) = cumulativeStreamedText s"
proof (cases "role msg = ''assistant''")
  case False
  then show ?thesis by (simp add: handleMessageEnd_def)
next
  case True
  from k have f: "\<And>t a b s. cumulativeStreamedText (finalizeAssistantTexts env t a b s)
                = cumulativeStreamedText s"
    and r: "\<And>t s. cumulativeStreamedText (fst (emitReasoningStream env t s))
                = cumulativeStreamedText s"
    by (simp_all add: keepsCumulative_def)
  define ftext where "ftext = endText env msg"
  define rawThinking where "rawThinking = endRawThinking env msg s"
  define formattedReasoning where
    "formattedReasoning = (if rawThinking \<noteq> [] then formatReasoningMessage env rawThinking else [])"
  obtain cleanedText urls hasMedia where c: "endCleaned env msg = (cleanedText, urls, hasMedia)"
    by (cases "endCleaned env msg") auto
  obtain s1 out1 where s1: "fallbackUpdate env cleanedText urls hasMedia s = (s1, out1)"
    by fastforce
  define added where "added = (length (assistantTexts s1) > assistantTextBaseline s1)"
  define s2 where "s2 = finalizeAssistantTexts env ftext added (chunkerHasBuffered env s1) s1"
  define she where "she = (includeReasoning s2 \<and> formattedReasoning \<noteq> []
      \<and> onBlockReply (params env) \<and> Some formattedReasoning \<noteq> lastReasoningSent s2)"
  define before where "before = (she \<and> blockReplyBreak s2 = MessageEnd \<and> \<not> added)"
  obtain s3 out3 where s3: "(if before then maybeEmitReasoning she formattedReasoning s2
      else (s2, [])) = (s3, out3)" by fastforce
  obtain s4 out4 where s4: "finalBlockReply env ftext s3 = (s4, out4)" by fastforce
  obtain s5 out5 where s5: "(if \<not> before then maybeEmitReasoning she formattedReasoning s4
      else (s4, [])) = (s5, out5)" by fastforce
  obtain s6 out6 where s6: "(if streamReasoning s5 \<and> rawThinking \<noteq> []
      then emitReasoningStream env rawThinking s5 else (s5, [])) = (s6, out6)" by fastforce
  obtain s7 out7 where s7: "tailReply env s6 = (s7, out7)" by fastforce
  have e: "handleMessageEnd env msg s
            = (resetAtMessageEnd env s7, out1 @ out3 @ out4 @ out5 @ out6 @ out7)"
    using True c s1 s3 s4 s5 s6 s7
    unfolding handleMessageEnd_def Let_def ftext_def rawThinking_def formattedReasoning_def
      added_def s2_def she_def before_def
    by simp
  have "cumulativeStreamedText s1 = cumulativeStreamedText s"
    using fallbackUpdate_cum[of env cleanedText urls hasMedia s] s1 by simp
  moreover have "cumulativeStreamedText s2 = cumulativeStreamedText s1"
    by (simp add: s2_def f)
  moreover have "cumulativeStreamedText s3 = cumulativeStreamedText s2"
    using s3 maybeEmitReasoning_cum[of she formattedReasoning s2] by (auto split: if_splits)
  moreover have "cumulativeStreamedText s4 = cumulativeStreamedText s3"
    using s4 finalBlockReply_cum[OF k, of ftext s3] by simp
  moreover have "cumulativeStreamedText s5 = cumulativeStreamedText s4"
    using s5 maybeEmitReasoning_cum[of she formattedReasoning s4] by (auto split: if_splits)
  moreover have "cumulativeStreamedText s6 = cumulativeStreamedText s5"
    using s6 r[of rawThinking s5] by (auto split: if_splits)
  moreover have "cumulativeStreamedText s7 = cumulativeStreamedText s6"
    using s7 tailReply_cum[OF k, of s6] by simp
  ultimately show ?thesis
    using e resetAtMessageEnd_cum[OF k, of s7] by simp
qed

text \<open>Claim C2, as amended. With methods of \<^verbatim>\<open>ctx\<close> that leave the cumulative text
  alone and send no assistant update of their own: over any sequence of \<^verbatim>\<open>message_update\<close>
  events the cumulative streamed text never shrinks, and the \<^verbatim>\<open>data.text\<close> values of the
  live updates sent form a chain under "is a prefix of", which starts at the cumulative text
  before and ends at the cumulative text after. \<^verbatim>\<open>handleMessageEnd\<close> leaves the cumulative
  text as it is.\<close>

theorem streamed_text_monotone:
  assumes "keepsCumulative env" and "sendsNoUpdate env"
  shows "prefixChain (cumulativeStreamedText s # agentEventTexts (snd (runUpdates env us s))
           @ [cumulativeStreamedText (fst (runUpdates env us s))])
         \<and> cumulativeStreamedText (fst (handleMessageEnd env msg s)) = cumulativeStreamedText s"
  using runUpdates_cum[OF assms] handleMessageEnd_cum[OF assms(1)] by blast

theorem streamed_text_monotone_witness:
  "keepsCumulative plainEnv \<and> sendsNoUpdate plainEnv
   \<and> prefixChain (cumulativeStreamedText (startState TextEnd)
        # agentEventTexts (snd (runUpdates plainEnv
            [textDelta ''Let me check.'' (Some 0), textEnd ''Let me check.'' (Some 0),
             textStart (Some 2), textDelta ''Here it is:'' (Some 2)] (startState TextEnd)))
        @ [cumulativeStreamedText (fst (runUpdates plainEnv
            [textDelta ''Let me check.'' (Some 0), textEnd ''Let me check.'' (Some 0),
             textStart (Some 2), textDelta ''Here it is:'' (Some 2)] (startState TextEnd)))])
   \<and> agentEventTexts (snd (runUpdates plainEnv
            [textDelta ''Let me check.'' (Some 0), textEnd ''Let me check.'' (Some 0),
             textStart (Some 2), textDelta ''Here it is:'' (Some 2)] (startState TextEnd)))
       = [''Let me check.'', ''Let me check.'' @ newline @ ''Here it is:'']"
proof -
  have h1: "keepsCumulative plainEnv" by (simp add: keepsCumulative_def plainEnv_def)
  have h2: "sendsNoUpdate plainEnv" by (simp add: sendsNoUpdate_def plainEnv_def)
  have e: "agentEventTexts (snd (runUpdates plainEnv
            [textDelta ''Let me check.'' (Some 0), textEnd ''Let me check.'' (Some 0),
             textStart (Some 2), textDelta ''Here it is:'' (Some 2)] (startState TextEnd)))
       = [''Let me check.'', ''Let me check.'' @ newline @ ''Here it is:'']"
    by code_simp
  show ?thesis
    using streamed_text_monotone[OF h1 h2] h1 h2 e by blast
qed

text \<open>The claim as stated also covers the update that \<^verbatim>\<open>handleMessageEnd\<close> sends when
  \<^verbatim>\<open>emittedAssistantUpdate\<close> is false. A block boundary clears that flag, so the update
  can follow live updates of the same message, and its text is the final text of the message,
  not the cumulative text: after \<open>Hello\<close> was streamed in block 0 and block 1 was opened, a
  final message \<open>Goodbye\<close> is sent as \<^verbatim>\<open>data.text\<close>, which \<open>Hello\<close> is no prefix of.\<close>

theorem streamed_text_monotone_counterexample:
  "agentEventTexts
     (snd (runEvents plainEnv
             [MessageStartEvent ''assistant'',
              MessageUpdateEvent (textDelta ''Hello'' (Some 0)),
              MessageUpdateEvent (textStart (Some 1)),
              MessageEndEvent (assistantMessage [''Goodbye''])]
             (startState MessageEnd)))
     = [''Hello'', ''Goodbye'']
   \<and> \<not> prefixChain
        (agentEventTexts
          (snd (runEvents plainEnv
             [MessageStartEvent ''assistant'',
              MessageUpdateEvent (textDelta ''Hello'' (Some 0)),
              MessageUpdateEvent (textStart (Some 1)),
              MessageEndEvent (assistantMessage [''Goodbye''])]
             (startState MessageEnd))))"
  by code_simp

subsection \<open>The live update\<close>

lemma agentEventDeltas_append:
  "agentEventDeltas (xs @ ys) = agentEventDeltas xs @ agentEventDeltas ys"
  by (induction xs rule: agentEventDeltas.induct) simp_all

lemma agentEventDeltas_filter:
  "agentEventDeltas (filter isAssistantUpdate out) = agentEventDeltas out"
  by (induction out rule: agentEventDeltas.induct) simp_all

lemma flushAtBoundary_quiet:
  assumes "sendsNoUpdate env"
  shows "filter isAssistantUpdate (snd (flushAtBoundary env s)) = []"
proof (cases "blockChunker env")
  case None
  with assms show ?thesis
    by (simp add: flushAtBoundary_def sendsNoUpdate_def case_prod_beta)
next
  case (Some c)
  with assms show ?thesis
    by (simp add: flushAtBoundary_def sendsNoUpdate_def case_prod_beta)
qed

lemma contentBlockTransition_quiet:
  "sendsNoUpdate env \<Longrightarrow> filter isAssistantUpdate (snd (contentBlockTransition env s)) = []"
  using flushAtBoundary_quiet[of env s]
  by (simp add: contentBlockTransition_def case_prod_beta)

lemma streamReasoningStep_quiet:
  "sendsNoUpdate env \<Longrightarrow> filter isAssistantUpdate (snd (streamReasoningStep env s)) = []"
  by (simp add: streamReasoningStep_def sendsNoUpdate_def)

lemma drainChunker_quiet:
  assumes "sendsNoUpdate env"
  shows "filter isAssistantUpdate (snd (drainChunker env s)) = []"
proof (cases "blockChunker env")
  case None
  then show ?thesis by (simp add: drainChunker_def)
next
  case (Some c)
  with assms show ?thesis by (simp add: drainChunker_def sendsNoUpdate_def)
qed

lemma forceDrainChunker_quiet:
  assumes "sendsNoUpdate env"
  shows "filter isAssistantUpdate (snd (forceDrainChunker env s)) = []"
proof (cases "blockChunker env")
  case None
  then show ?thesis by (simp add: forceDrainChunker_def)
next
  case (Some c)
  with assms show ?thesis by (simp add: forceDrainChunker_def sendsNoUpdate_def case_prod_beta)
qed

lemma flushAtTextEnd_quiet:
  assumes "sendsNoUpdate env"
  shows "filter isAssistantUpdate (snd (flushAtTextEnd env t s)) = []"
proof -
  from assms have q: "\<And>t s. filter isAssistantUpdate (snd (emitBlockChunk env t s)) = []"
    by (simp add: sendsNoUpdate_def)
  show ?thesis
    by (simp add: flushAtTextEnd_def forceDrainChunker_quiet[OF assms] q case_prod_beta)
qed

lemma liveUpdate_only_updates:
  "filter isAssistantUpdate (snd (liveUpdate env chunk s)) = snd (liveUpdate env chunk s)"
  by (simp add: liveUpdate_def Let_def case_prod_beta)

lemma handleMessageUpdate_updates:
  assumes q: "sendsNoUpdate env"
    and a: "msgRole evt = ''assistant''" "isTextEvent (evType evt)"
           "\<not> isLateEvent (contentIndexOf evt) s"
    and i: "liveUpdateInput env evt s = (chunk, s0)"
  shows "filter isAssistantUpdate (snd (handleMessageUpdate env evt s))
           = snd (liveUpdate env chunk s0)"
proof -
  define ci where "ci = contentIndexOf evt"
  obtain s1 out1 where t: "(if isBlockTransition ci s
       then contentBlockTransition env s else (s, [])) = (s1, out1)" by fastforce
  define s2 where "s2 = trackContentIndex ci s1"
  define ch where "ch = computeChunk (evType evt) (deltaOf evt) (contentOf evt) (deltaBuffer s2)"
  define s3 where "s3 = appendChunk env ch s2"
  obtain s4 out4 where r: "streamReasoningStep env s3 = (s4, out4)" by fastforce
  obtain s5 out5 where l: "liveUpdate env ch s4 = (s5, out5)" by fastforce
  obtain s6 out6 where d: "drainChunker env s5 = (s6, out6)" by fastforce
  obtain s7 out7 where f: "flushAtTextEnd env (evType evt) s6 = (s7, out7)" by fastforce
  have p: "processChunk env evt s2 = (s7, out4 @ out5 @ out6 @ out7)"
    using r l d f by (simp add: processChunk_def Let_def ch_def s3_def)
  have h: "handleMessageUpdate env evt s = (s7, out1 @ out4 @ out5 @ out6 @ out7)"
    using a t p by (simp add: handleMessageUpdate_def Let_def ci_def s2_def)
  have inp: "chunk = ch" "s0 = s4"
    using i t r by (simp_all add: liveUpdateInput_def Let_def ci_def s2_def ch_def s3_def)
  have q1: "filter isAssistantUpdate out1 = []"
    using t contentBlockTransition_quiet[OF q, of s] by (auto split: if_splits)
  have q4: "filter isAssistantUpdate out4 = []"
    using r streamReasoningStep_quiet[OF q, of s3] by simp
  have q5: "filter isAssistantUpdate out5 = out5"
    using l liveUpdate_only_updates[of env ch s4] by simp
  have q6: "filter isAssistantUpdate out6 = []"
    using d drainChunker_quiet[OF q, of s5] by simp
  have q7: "filter isAssistantUpdate out7 = []"
    using f flushAtTextEnd_quiet[OF q, of "evType evt" s6] by simp
  show ?thesis using h inp l q1 q4 q5 q6 q7 by simp
qed

lemma liveUpdate_out:
  assumes "nextVisible env s0 \<noteq> []"
    and "consumeVisibleDelta env chunk s0 = (parsedDelta, s1)"
  shows "snd (liveUpdate env chunk s0)
     = (let cleanedText = replyText (parseReplyDirectives env
                            (stripTrailingDirective (nextVisible env s0)));
            urls = (case parsedDelta of Some p \<Rightarrow> mediaUrls p | None \<Rightarrow> None);
            hasMedia = hasMediaUrls urls;
            hasAudio = (case parsedDelta of Some p \<Rightarrow> audioAsVoice p | None \<Rightarrow> False);
            previousCleaned =
              (case lastStreamedAssistantCleaned s1 of Some p \<Rightarrow> p | None \<Rightarrow> []);
            d = emitDecision cleanedText hasMedia hasAudio previousCleaned;
            cumulativeText = cumulativeStreamedText s1 @ snd d;
            media = (if hasMedia then urls else None)
        in if fst d then
             [AgentEvent cumulativeText (snd d) media]
             @ (if onAgentEvent (params env)
                then [OnAgentEvent cumulativeText (snd d) media] else [])
             @ (if onPartialReply (params env) \<and> shouldEmitPartialReplies s1
                then [PartialReply cumulativeText media] else [])
           else [])"
  using assms by (simp add: liveUpdate_def Let_def case_prod_beta)

text \<open>Claim C5. Take an accepted sub-event (assistant role, a text type, not late) that
  reaches the live update with a non-empty \<^verbatim>\<open>next\<close> (the buffer stripped from a fresh tag
  state, and trimmed), and methods of \<^verbatim>\<open>ctx\<close> that send no assistant update of their own.
  The partial directive result is what \<^verbatim>\<open>consumePartialReplyDirectives\<close> makes of the chunk
  stripped with \<^verbatim>\<open>partialBlockState\<close>, and there is none when the chunk or the stripped
  chunk is empty. If the text cleaned before is non-empty and the new cleaned text does not
  start with it, the handler sends no assistant update. Otherwise the delta is the new
  cleaned text with the previous one removed from its front, an update is sent exactly when
  that delta is non-empty or the partial directive result has media or the voice flag, and
  the update carries that delta.\<close>

theorem regression_suppression:
  assumes "sendsNoUpdate env"
    and "msgRole evt = ''assistant''" and "isTextEvent (evType evt)"
    and "\<not> isLateEvent (contentIndexOf evt) s"
    and "liveUpdateInput env evt s = (chunk, s0)"
    and "next = trim (fst (stripBlockTags env (deltaBuffer s0)
                 \<lparr>thinking = False, final = False,
                  inlineCode = Some (createInlineCodeState env)\<rparr>))"
    and "next \<noteq> []"
    and "stripBlockTags env chunk (partialBlockState s0) = (visibleDelta, ts)"
    and "(parsedDelta, s1)
           = (if chunk = [] then (None, s0)
              else if visibleDelta = [] then (None, s0\<lparr>partialBlockState := ts\<rparr>)
              else consumePartialReplyDirectives env visibleDelta (s0\<lparr>partialBlockState := ts\<rparr>))"
    and "cleanedText = replyText (parseReplyDirectives env (stripTrailingDirective next))"
    and "previousCleaned
           = (case lastStreamedAssistantCleaned s1 of Some p \<Rightarrow> p | None \<Rightarrow> [])"
    and "hasMedia
           = (case parsedDelta of
                Some p \<Rightarrow> (case mediaUrls p of Some us \<Rightarrow> us \<noteq> [] | None \<Rightarrow> False)
              | None \<Rightarrow> False)"
    and "hasAudio = (case parsedDelta of Some p \<Rightarrow> audioAsVoice p | None \<Rightarrow> False)"
    and "deltaText = drop (length previousCleaned) cleanedText"
  shows "(previousCleaned \<noteq> [] \<and> \<not> prefix previousCleaned cleanedText
           \<longrightarrow> filter isAssistantUpdate (snd (handleMessageUpdate env evt s)) = [])
       \<and> (\<not> (previousCleaned \<noteq> [] \<and> \<not> prefix previousCleaned cleanedText)
           \<longrightarrow> previousCleaned @ deltaText = cleanedText
               \<and> (filter isAssistantUpdate (snd (handleMessageUpdate env evt s)) \<noteq> []
                    \<longleftrightarrow> deltaText \<noteq> [] \<or> hasMedia \<or> hasAudio)
               \<and> agentEventDeltas (snd (handleMessageUpdate env evt s))
                    = (if deltaText \<noteq> [] \<or> hasMedia \<or> hasAudio then [deltaText] else []))"
proof -
  note u = handleMessageUpdate_updates[OF assms(1,2,3,4,5)]
  have nv: "nextVisible env s0 = next"
    using assms(6) by (simp add: nextVisible_def freshTagState_def)
  have nn: "nextVisible env s0 \<noteq> []" using nv assms(7) by simp
  have cv: "consumeVisibleDelta env chunk s0 = (parsedDelta, s1)"
    using assms(8,9) by (simp add: consumeVisibleDelta_def split: if_splits)
  have hm: "hasMedia
           = hasMediaUrls (case parsedDelta of Some p \<Rightarrow> mediaUrls p | None \<Rightarrow> None)"
    using assms(12) by (simp add: hasMediaUrls_def split: option.splits)
  have ct: "cleanedText
           = replyText (parseReplyDirectives env (stripTrailingDirective (nextVisible env s0)))"
    using assms(10) nv by simp
  note o = liveUpdate_out[OF nn cv]
  have d: "agentEventDeltas (snd (handleMessageUpdate env evt s))
             = agentEventDeltas (snd (liveUpdate env chunk s0))"
    using u agentEventDeltas_filter[of "snd (handleMessageUpdate env evt s)"] by simp
  show ?thesis
  proof (cases "previousCleaned \<noteq> [] \<and> \<not> prefix previousCleaned cleanedText")
    case True
    then have "emitDecision cleanedText hasMedia hasAudio previousCleaned = (False, [])"
      by (auto simp: emitDecision_def)
    then have "snd (liveUpdate env chunk s0) = []"
      using o ct assms(11) hm assms(13) by (simp add: Let_def)
    with True u show ?thesis by simp
  next
    case False
    then have e: "emitDecision cleanedText hasMedia hasAudio previousCleaned
             = (deltaText \<noteq> [] \<or> hasMedia \<or> hasAudio, deltaText)"
      using assms(14) by (auto simp: emitDecision_def Let_def)
    have p: "previousCleaned @ deltaText = cleanedText"
      using False assms(14) by (auto simp: prefix_def)
    have l: "snd (liveUpdate env chunk s0) \<noteq> [] \<longleftrightarrow> deltaText \<noteq> [] \<or> hasMedia \<or> hasAudio"
      using o e ct assms(11) hm assms(13) by (simp add: Let_def)
    have a: "agentEventDeltas (snd (liveUpdate env chunk s0))
                = (if deltaText \<noteq> [] \<or> hasMedia \<or> hasAudio then [deltaText] else [])"
      using o e ct assms(11) hm assms(13) by (simp add: Let_def)
    have c1: "previousCleaned \<noteq> [] \<and> \<not> prefix previousCleaned cleanedText
           \<longrightarrow> filter isAssistantUpdate (snd (handleMessageUpdate env evt s)) = []"
      using False by blast
    have c2: "previousCleaned @ deltaText = cleanedText
               \<and> (filter isAssistantUpdate (snd (handleMessageUpdate env evt s)) \<noteq> []
                    \<longleftrightarrow> deltaText \<noteq> [] \<or> hasMedia \<or> hasAudio)
               \<and> agentEventDeltas (snd (handleMessageUpdate env evt s))
                    = (if deltaText \<noteq> [] \<or> hasMedia \<or> hasAudio then [deltaText] else [])"
      using p l a u d by simp
    show ?thesis using c1 c2 by blast
  qed
qed

theorem regression_suppression_witness:
  "sendsNoUpdate plainEnv \<and> sendsNoUpdate directiveEnv
   \<and> fst (runUpdates plainEnv [textDelta ''Hi ['' (Some 0)] (startState TextEnd))
       = openBracketState
   \<and> liveUpdateInput plainEnv (textDelta ''['' (Some 0)) openBracketState
       = (''['', openBracketState\<lparr>deltaBuffer := ''Hi [['', blockBuffer := ''Hi [[''\<rparr>)
   \<and> stripTrailingDirective ''Hi [['' = ''Hi ''
   \<and> lastStreamedAssistantCleaned openBracketState = Some ''Hi [''
   \<and> \<not> prefix ''Hi ['' ''Hi ''
   \<and> filter isAssistantUpdate
        (snd (handleMessageUpdate plainEnv (textDelta ''['' (Some 0)) openBracketState)) = []
   \<and> fst (runUpdates plainEnv [textDelta ''Partial'' (Some 0)] (startState TextEnd))
       = partialStreamedState
   \<and> liveUpdateInput plainEnv (textEnd ''Partial text done'' (Some 0)) partialStreamedState
       = ('' text done'',
          partialStreamedState\<lparr>deltaBuffer := ''Partial text done'',
                                blockBuffer := ''Partial text done''\<rparr>)
   \<and> prefix ''Partial'' ''Partial text done''
   \<and> agentEventDeltas
        (snd (handleMessageUpdate plainEnv (textEnd ''Partial text done'' (Some 0))
                partialStreamedState))
       = ['' text done'']
   \<and> fst (runUpdates directiveEnv [textDelta ''Hi'' (Some 0)] (startState TextEnd)) = hiState
   \<and> audioAsVoice (directivePayload ''[[audio_as_voice]]'')
   \<and> agentEventDeltas
        (snd (handleMessageUpdate directiveEnv (textDelta ''[[audio_as_voice]]'' (Some 0))
                hiState))
       = [[]]
   \<and> snd (handleMessageUpdate directiveEnv (textDelta ''[[audio_as_voice]]'' (Some 0)) hiState)
       = [AgentEvent ''Hi'' [] None, OnAgentEvent ''Hi'' [] None, PartialReply ''Hi'' None]
   \<and> mediaUrls (directivePayload ''[[media:a.png]]'') = Some [''a.png'']
   \<and> agentEventDeltas
        (snd (handleMessageUpdate directiveEnv (textDelta ''[[media:a.png]]'' (Some 0))
                hiState))
       = [[]]
   \<and> snd (handleMessageUpdate directiveEnv (textDelta ''[[media:a.png]]'' (Some 0)) hiState)
       = [AgentEvent ''Hi'' [] (Some [''a.png'']), OnAgentEvent ''Hi'' [] (Some [''a.png'']),
          PartialReply ''Hi'' (Some [''a.png''])]
   \<and> filter isAssistantUpdate
        (snd (handleMessageUpdate directiveEnv (textDelta '' '' (Some 0)) hiState)) = []"
proof -
  have q: "sendsNoUpdate plainEnv" by (simp add: sendsNoUpdate_def plainEnv_def)
  have qd: "sendsNoUpdate directiveEnv"
    by (simp add: sendsNoUpdate_def directiveEnv_def plainEnv_def)
  have ra: "fst (runUpdates plainEnv [textDelta ''Hi ['' (Some 0)] (startState TextEnd))
       = openBracketState" by code_simp
  have rb: "fst (runUpdates plainEnv [textDelta ''Partial'' (Some 0)] (startState TextEnd))
       = partialStreamedState" by code_simp
  have rc: "fst (runUpdates directiveEnv [textDelta ''Hi'' (Some 0)] (startState TextEnd))
       = hiState" by code_simp
  have st: "stripTrailingDirective ''Hi [['' = ''Hi ''" by code_simp
  have r: "lastStreamedAssistantCleaned openBracketState = Some ''Hi [''" by code_simp
  have np: "\<not> prefix ''Hi ['' ''Hi ''" by code_simp
  have pp: "prefix ''Partial'' ''Partial text done''" by code_simp
  have ph: "prefix ''Hi'' ''Hi''" by simp
  have av: "audioAsVoice (directivePayload ''[[audio_as_voice]]'')" by code_simp
  have mu: "mediaUrls (directivePayload ''[[media:a.png]]'') = Some [''a.png'']" by code_simp
  have oc: "snd (handleMessageUpdate directiveEnv (textDelta ''[[audio_as_voice]]'' (Some 0))
                hiState)
       = [AgentEvent ''Hi'' [] None, OnAgentEvent ''Hi'' [] None, PartialReply ''Hi'' None]"
    by code_simp
  have od: "snd (handleMessageUpdate directiveEnv (textDelta ''[[media:a.png]]'' (Some 0))
                hiState)
       = [AgentEvent ''Hi'' [] (Some [''a.png'']), OnAgentEvent ''Hi'' [] (Some [''a.png'']),
          PartialReply ''Hi'' (Some [''a.png''])]"
    by code_simp
  have a2: "msgRole (textDelta ''['' (Some 0)) = ''assistant''"
    by code_simp
  have a3: "isTextEvent (evType (textDelta ''['' (Some 0)))"
    by code_simp
  have a4: "\<not> isLateEvent (contentIndexOf (textDelta ''['' (Some 0))) openBracketState"
    by code_simp
  have a5: "liveUpdateInput plainEnv (textDelta ''['' (Some 0)) openBracketState
       = (''['', openBracketState\<lparr>deltaBuffer := ''Hi [['', blockBuffer := ''Hi [[''\<rparr>)"
    by code_simp
  have a6: "''Hi [['' = trim (fst (stripBlockTags plainEnv (deltaBuffer (openBracketState\<lparr>deltaBuffer := ''Hi [['', blockBuffer := ''Hi [[''\<rparr>))
                 \<lparr>thinking = False, final = False,
                  inlineCode = Some (createInlineCodeState plainEnv)\<rparr>))"
    by code_simp
  have a7: "''Hi [['' \<noteq> []"
    by code_simp
  have a8: "stripBlockTags plainEnv ''['' (partialBlockState (openBracketState\<lparr>deltaBuffer := ''Hi [['', blockBuffer := ''Hi [[''\<rparr>))
       = (''['', \<lparr>thinking = False, final = False, inlineCode = Some ()\<rparr>)"
    by code_simp
  have a9: "(Some (textPayload ''[''), openBracketState\<lparr>deltaBuffer := ''Hi [['', blockBuffer := ''Hi [[''\<rparr>)
       = (if ''['' = [] then (None, openBracketState\<lparr>deltaBuffer := ''Hi [['', blockBuffer := ''Hi [[''\<rparr>)
          else if ''['' = [] then (None, (openBracketState\<lparr>deltaBuffer := ''Hi [['', blockBuffer := ''Hi [[''\<rparr>)\<lparr>partialBlockState := \<lparr>thinking = False, final = False, inlineCode = Some ()\<rparr>\<rparr>)
          else consumePartialReplyDirectives plainEnv ''['' ((openBracketState\<lparr>deltaBuffer := ''Hi [['', blockBuffer := ''Hi [[''\<rparr>)\<lparr>partialBlockState := \<lparr>thinking = False, final = False, inlineCode = Some ()\<rparr>\<rparr>))"
    by code_simp
  have a10: "''Hi '' = replyText (parseReplyDirectives plainEnv (stripTrailingDirective ''Hi [[''))"
    by code_simp
  have a11: "''Hi ['' = (case lastStreamedAssistantCleaned (openBracketState\<lparr>deltaBuffer := ''Hi [['', blockBuffer := ''Hi [[''\<rparr>) of
              Some p \<Rightarrow> p | None \<Rightarrow> [])"
    by code_simp
  have a12: "False = (case Some (textPayload ''['') of
                Some p \<Rightarrow> (case mediaUrls p of Some us \<Rightarrow> us \<noteq> [] | None \<Rightarrow> False)
              | None \<Rightarrow> False)"
    by code_simp
  have a13: "False = (case Some (textPayload ''['') of
                Some p \<Rightarrow> audioAsVoice p | None \<Rightarrow> False)"
    by code_simp
  have a14: "[] = drop (length ''Hi ['') ''Hi ''"
    by code_simp
  note A = regression_suppression[OF q a2 a3 a4 a5 a6 a7 a8 a9 a10 a11 a12 a13 a14]
  have b2: "msgRole (textEnd ''Partial text done'' (Some 0)) = ''assistant''"
    by code_simp
  have b3: "isTextEvent (evType (textEnd ''Partial text done'' (Some 0)))"
    by code_simp
  have b4: "\<not> isLateEvent (contentIndexOf (textEnd ''Partial text done'' (Some 0))) partialStreamedState"
    by code_simp
  have b5: "liveUpdateInput plainEnv (textEnd ''Partial text done'' (Some 0)) partialStreamedState
       = ('' text done'', partialStreamedState\<lparr>deltaBuffer := ''Partial text done'', blockBuffer := ''Partial text done''\<rparr>)"
    by code_simp
  have b6: "''Partial text done'' = trim (fst (stripBlockTags plainEnv (deltaBuffer (partialStreamedState\<lparr>deltaBuffer := ''Partial text done'', blockBuffer := ''Partial text done''\<rparr>))
                 \<lparr>thinking = False, final = False,
                  inlineCode = Some (createInlineCodeState plainEnv)\<rparr>))"
    by code_simp
  have b7: "''Partial text done'' \<noteq> []"
    by code_simp
  have b8: "stripBlockTags plainEnv '' text done'' (partialBlockState (partialStreamedState\<lparr>deltaBuffer := ''Partial text done'', blockBuffer := ''Partial text done''\<rparr>))
       = ('' text done'', \<lparr>thinking = False, final = False, inlineCode = Some ()\<rparr>)"
    by code_simp
  have b9: "(Some (textPayload '' text done''), partialStreamedState\<lparr>deltaBuffer := ''Partial text done'', blockBuffer := ''Partial text done''\<rparr>)
       = (if '' text done'' = [] then (None, partialStreamedState\<lparr>deltaBuffer := ''Partial text done'', blockBuffer := ''Partial text done''\<rparr>)
          else if '' text done'' = [] then (None, (partialStreamedState\<lparr>deltaBuffer := ''Partial text done'', blockBuffer := ''Partial text done''\<rparr>)\<lparr>partialBlockState := \<lparr>thinking = False, final = False, inlineCode = Some ()\<rparr>\<rparr>)
          else consumePartialReplyDirectives plainEnv '' text done'' ((partialStreamedState\<lparr>deltaBuffer := ''Partial text done'', blockBuffer := ''Partial text done''\<rparr>)\<lparr>partialBlockState := \<lparr>thinking = False, final = False, inlineCode = Some ()\<rparr>\<rparr>))"
    by code_simp
  have b10: "''Partial text done'' = replyText (parseReplyDirectives plainEnv (stripTrailingDirective ''Partial text done''))"
    by code_simp
  have b11: "''Partial'' = (case lastStreamedAssistantCleaned (partialStreamedState\<lparr>deltaBuffer := ''Partial text done'', blockBuffer := ''Partial text done''\<rparr>) of
              Some p \<Rightarrow> p | None \<Rightarrow> [])"
    by code_simp
  have b12: "False = (case Some (textPayload '' text done'') of
                Some p \<Rightarrow> (case mediaUrls p of Some us \<Rightarrow> us \<noteq> [] | None \<Rightarrow> False)
              | None \<Rightarrow> False)"
    by code_simp
  have b13: "False = (case Some (textPayload '' text done'') of
                Some p \<Rightarrow> audioAsVoice p | None \<Rightarrow> False)"
    by code_simp
  have b14: "'' text done'' = drop (length ''Partial'') ''Partial text done''"
    by code_simp
  note B = regression_suppression[OF q b2 b3 b4 b5 b6 b7 b8 b9 b10 b11 b12 b13 b14]
  have c2: "msgRole (textDelta ''[[audio_as_voice]]'' (Some 0)) = ''assistant''"
    by code_simp
  have c3: "isTextEvent (evType (textDelta ''[[audio_as_voice]]'' (Some 0)))"
    by code_simp
  have c4: "\<not> isLateEvent (contentIndexOf (textDelta ''[[audio_as_voice]]'' (Some 0))) hiState"
    by code_simp
  have c5: "liveUpdateInput directiveEnv (textDelta ''[[audio_as_voice]]'' (Some 0)) hiState
       = (''[[audio_as_voice]]'', hiState\<lparr>deltaBuffer := ''Hi[[audio_as_voice]]'', blockBuffer := ''Hi[[audio_as_voice]]''\<rparr>)"
    by code_simp
  have c6: "''Hi[[audio_as_voice]]'' = trim (fst (stripBlockTags directiveEnv (deltaBuffer (hiState\<lparr>deltaBuffer := ''Hi[[audio_as_voice]]'', blockBuffer := ''Hi[[audio_as_voice]]''\<rparr>))
                 \<lparr>thinking = False, final = False,
                  inlineCode = Some (createInlineCodeState directiveEnv)\<rparr>))"
    by code_simp
  have c7: "''Hi[[audio_as_voice]]'' \<noteq> []"
    by code_simp
  have c8: "stripBlockTags directiveEnv ''[[audio_as_voice]]'' (partialBlockState (hiState\<lparr>deltaBuffer := ''Hi[[audio_as_voice]]'', blockBuffer := ''Hi[[audio_as_voice]]''\<rparr>))
       = (''[[audio_as_voice]]'', \<lparr>thinking = False, final = False, inlineCode = Some ()\<rparr>)"
    by code_simp
  have c9: "(Some (directivePayload ''[[audio_as_voice]]''), hiState\<lparr>deltaBuffer := ''Hi[[audio_as_voice]]'', blockBuffer := ''Hi[[audio_as_voice]]''\<rparr>)
       = (if ''[[audio_as_voice]]'' = [] then (None, hiState\<lparr>deltaBuffer := ''Hi[[audio_as_voice]]'', blockBuffer := ''Hi[[audio_as_voice]]''\<rparr>)
          else if ''[[audio_as_voice]]'' = [] then (None, (hiState\<lparr>deltaBuffer := ''Hi[[audio_as_voice]]'', blockBuffer := ''Hi[[audio_as_voice]]''\<rparr>)\<lparr>partialBlockState := \<lparr>thinking = False, final = False, inlineCode = Some ()\<rparr>\<rparr>)
          else consumePartialReplyDirectives directiveEnv ''[[audio_as_voice]]'' ((hiState\<lparr>deltaBuffer := ''Hi[[audio_as_voice]]'', blockBuffer := ''Hi[[audio_as_voice]]''\<rparr>)\<lparr>partialBlockState := \<lparr>thinking = False, final = False, inlineCode = Some ()\<rparr>\<rparr>))"
    by code_simp
  have c10: "''Hi'' = replyText (parseReplyDirectives directiveEnv (stripTrailingDirective ''Hi[[audio_as_voice]]''))"
    by code_simp
  have c11: "''Hi'' = (case lastStreamedAssistantCleaned (hiState\<lparr>deltaBuffer := ''Hi[[audio_as_voice]]'', blockBuffer := ''Hi[[audio_as_voice]]''\<rparr>) of
              Some p \<Rightarrow> p | None \<Rightarrow> [])"
    by code_simp
  have c12: "False = (case Some (directivePayload ''[[audio_as_voice]]'') of
                Some p \<Rightarrow> (case mediaUrls p of Some us \<Rightarrow> us \<noteq> [] | None \<Rightarrow> False)
              | None \<Rightarrow> False)"
    by code_simp
  have c13: "True = (case Some (directivePayload ''[[audio_as_voice]]'') of
                Some p \<Rightarrow> audioAsVoice p | None \<Rightarrow> False)"
    by code_simp
  have c14: "[] = drop (length ''Hi'') ''Hi''"
    by code_simp
  note C = regression_suppression[OF qd c2 c3 c4 c5 c6 c7 c8 c9 c10 c11 c12 c13 c14]
  have d2: "msgRole (textDelta ''[[media:a.png]]'' (Some 0)) = ''assistant''"
    by code_simp
  have d3: "isTextEvent (evType (textDelta ''[[media:a.png]]'' (Some 0)))"
    by code_simp
  have d4: "\<not> isLateEvent (contentIndexOf (textDelta ''[[media:a.png]]'' (Some 0))) hiState"
    by code_simp
  have d5: "liveUpdateInput directiveEnv (textDelta ''[[media:a.png]]'' (Some 0)) hiState
       = (''[[media:a.png]]'', hiState\<lparr>deltaBuffer := ''Hi[[media:a.png]]'', blockBuffer := ''Hi[[media:a.png]]''\<rparr>)"
    by code_simp
  have d6: "''Hi[[media:a.png]]'' = trim (fst (stripBlockTags directiveEnv (deltaBuffer (hiState\<lparr>deltaBuffer := ''Hi[[media:a.png]]'', blockBuffer := ''Hi[[media:a.png]]''\<rparr>))
                 \<lparr>thinking = False, final = False,
                  inlineCode = Some (createInlineCodeState directiveEnv)\<rparr>))"
    by code_simp
  have d7: "''Hi[[media:a.png]]'' \<noteq> []"
    by code_simp
  have d8: "stripBlockTags directiveEnv ''[[media:a.png]]'' (partialBlockState (hiState\<lparr>deltaBuffer := ''Hi[[media:a.png]]'', blockBuffer := ''Hi[[media:a.png]]''\<rparr>))
       = (''[[media:a.png]]'', \<lparr>thinking = False, final = False, inlineCode = Some ()\<rparr>)"
    by code_simp
  have d9: "(Some (directivePayload ''[[media:a.png]]''), hiState\<lparr>deltaBuffer := ''Hi[[media:a.png]]'', blockBuffer := ''Hi[[media:a.png]]''\<rparr>)
       = (if ''[[media:a.png]]'' = [] then (None, hiState\<lparr>deltaBuffer := ''Hi[[media:a.png]]'', blockBuffer := ''Hi[[media:a.png]]''\<rparr>)
          else if ''[[media:a.png]]'' = [] then (None, (hiState\<lparr>deltaBuffer := ''Hi[[media:a.png]]'', blockBuffer := ''Hi[[media:a.png]]''\<rparr>)\<lparr>partialBlockState := \<lparr>thinking = False, final = False, inlineCode = Some ()\<rparr>\<rparr>)
          else consumePartialReplyDirectives directiveEnv ''[[media:a.png]]'' ((hiState\<lparr>deltaBuffer := ''Hi[[media:a.png]]'', blockBuffer := ''Hi[[media:a.png]]''\<rparr>)\<lparr>partialBlockState := \<lparr>thinking = False, final = False, inlineCode = Some ()\<rparr>\<rparr>))"
    by code_simp
  have d10: "''Hi'' = replyText (parseReplyDirectives directiveEnv (stripTrailingDirective ''Hi[[media:a.png]]''))"
    by code_simp
  have d11: "''Hi'' = (case lastStreamedAssistantCleaned (hiState\<lparr>deltaBuffer := ''Hi[[media:a.png]]'', blockBuffer := ''Hi[[media:a.png]]''\<rparr>) of
              Some p \<Rightarrow> p | None \<Rightarrow> [])"
    by code_simp
  have d12: "True = (case Some (directivePayload ''[[media:a.png]]'') of
                Some p \<Rightarrow> (case mediaUrls p of Some us \<Rightarrow> us \<noteq> [] | None \<Rightarrow> False)
              | None \<Rightarrow> False)"
    by code_simp
  have d13: "False = (case Some (directivePayload ''[[media:a.png]]'') of
                Some p \<Rightarrow> audioAsVoice p | None \<Rightarrow> False)"
    by code_simp
  have d14: "[] = drop (length ''Hi'') ''Hi''"
    by code_simp
  note D = regression_suppression[OF qd d2 d3 d4 d5 d6 d7 d8 d9 d10 d11 d12 d13 d14]
  have e2: "msgRole (textDelta '' '' (Some 0)) = ''assistant''"
    by code_simp
  have e3: "isTextEvent (evType (textDelta '' '' (Some 0)))"
    by code_simp
  have e4: "\<not> isLateEvent (contentIndexOf (textDelta '' '' (Some 0))) hiState"
    by code_simp
  have e5: "liveUpdateInput directiveEnv (textDelta '' '' (Some 0)) hiState
       = ('' '', hiState\<lparr>deltaBuffer := ''Hi '', blockBuffer := ''Hi ''\<rparr>)"
    by code_simp
  have e6: "''Hi'' = trim (fst (stripBlockTags directiveEnv (deltaBuffer (hiState\<lparr>deltaBuffer := ''Hi '', blockBuffer := ''Hi ''\<rparr>))
                 \<lparr>thinking = False, final = False,
                  inlineCode = Some (createInlineCodeState directiveEnv)\<rparr>))"
    by code_simp
  have e7: "''Hi'' \<noteq> []"
    by code_simp
  have e8: "stripBlockTags directiveEnv '' '' (partialBlockState (hiState\<lparr>deltaBuffer := ''Hi '', blockBuffer := ''Hi ''\<rparr>))
       = ('' '', \<lparr>thinking = False, final = False, inlineCode = Some ()\<rparr>)"
    by code_simp
  have e9: "(Some (directivePayload '' ''), hiState\<lparr>deltaBuffer := ''Hi '', blockBuffer := ''Hi ''\<rparr>)
       = (if '' '' = [] then (None, hiState\<lparr>deltaBuffer := ''Hi '', blockBuffer := ''Hi ''\<rparr>)
          else if '' '' = [] then (None, (hiState\<lparr>deltaBuffer := ''Hi '', blockBuffer := ''Hi ''\<rparr>)\<lparr>partialBlockState := \<lparr>thinking = False, final = False, inlineCode = Some ()\<rparr>\<rparr>)
          else consumePartialReplyDirectives directiveEnv '' '' ((hiState\<lparr>deltaBuffer := ''Hi '', blockBuffer := ''Hi ''\<rparr>)\<lparr>partialBlockState := \<lparr>thinking = False, final = False, inlineCode = Some ()\<rparr>\<rparr>))"
    by code_simp
  have e10: "''Hi'' = replyText (parseReplyDirectives directiveEnv (stripTrailingDirective ''Hi''))"
    by code_simp
  have e11: "''Hi'' = (case lastStreamedAssistantCleaned (hiState\<lparr>deltaBuffer := ''Hi '', blockBuffer := ''Hi ''\<rparr>) of
              Some p \<Rightarrow> p | None \<Rightarrow> [])"
    by code_simp
  have e12: "False = (case Some (directivePayload '' '') of
                Some p \<Rightarrow> (case mediaUrls p of Some us \<Rightarrow> us \<noteq> [] | None \<Rightarrow> False)
              | None \<Rightarrow> False)"
    by code_simp
  have e13: "False = (case Some (directivePayload '' '') of
                Some p \<Rightarrow> audioAsVoice p | None \<Rightarrow> False)"
    by code_simp
  have e14: "[] = drop (length ''Hi'') ''Hi''"
    by code_simp
  note E = regression_suppression[OF qd e2 e3 e4 e5 e6 e7 e8 e9 e10 e11 e12 e13 e14]
  have cA: "filter isAssistantUpdate
        (snd (handleMessageUpdate plainEnv (textDelta ''['' (Some 0)) openBracketState)) = []"
    using A[THEN conjunct1] np by simp
  have cB: "agentEventDeltas
        (snd (handleMessageUpdate plainEnv (textEnd ''Partial text done'' (Some 0))
                partialStreamedState))
       = ['' text done'']"
    using B[THEN conjunct2] pp by simp
  have cC: "agentEventDeltas
        (snd (handleMessageUpdate directiveEnv (textDelta ''[[audio_as_voice]]'' (Some 0))
                hiState))
       = [[]]"
    using C[THEN conjunct2] ph by simp
  have cD: "agentEventDeltas
        (snd (handleMessageUpdate directiveEnv (textDelta ''[[media:a.png]]'' (Some 0))
                hiState))
       = [[]]"
    using D[THEN conjunct2] ph by simp
  have cE: "filter isAssistantUpdate
        (snd (handleMessageUpdate directiveEnv (textDelta '' '' (Some 0)) hiState)) = []"
    using E[THEN conjunct2] ph by simp
  show ?thesis using q qd ra a5 st r np cA rb b5 pp cB rc av cC oc mu cD od cE by blast
qed

subsection \<open>The end of a message\<close>

lemma sendSplitResult_quiet: "filter isAssistantUpdate (sendSplitResult r) = []"
  by (simp add: sendSplitResult_def split: option.splits)

lemma maybeEmitReasoning_quiet:
  "filter isAssistantUpdate (snd (maybeEmitReasoning b r s)) = []"
  by (simp add: maybeEmitReasoning_def)

lemma finalBlockReply_quiet:
  "sendsNoUpdate env \<Longrightarrow> filter isAssistantUpdate (snd (finalBlockReply env t s)) = []"
  by (simp add: finalBlockReply_def Let_def case_prod_beta sendSplitResult_quiet
      forceDrainChunker_quiet)

lemma tailReply_quiet: "filter isAssistantUpdate (snd (tailReply env s)) = []"
  by (simp add: tailReply_def case_prod_beta sendSplitResult_quiet)

lemma fallbackUpdate_only_updates:
  "filter isAssistantUpdate (snd (fallbackUpdate env c u h s)) = snd (fallbackUpdate env c u h s)"
  by (simp add: fallbackUpdate_def Let_def)

lemma handleMessageEnd_updates:
  assumes q: "sendsNoUpdate env" and a: "role msg = ''assistant''"
    and c: "endCleaned env msg = (cleanedText, urls, hasMedia)"
  shows "filter isAssistantUpdate (snd (handleMessageEnd env msg s))
           = snd (fallbackUpdate env cleanedText urls hasMedia s)"
proof -
  from q have r: "\<And>t s. filter isAssistantUpdate (snd (emitReasoningStream env t s)) = []"
    by (simp add: sendsNoUpdate_def)
  define ftext where "ftext = endText env msg"
  define rawThinking where "rawThinking = endRawThinking env msg s"
  define formattedReasoning where
    "formattedReasoning = (if rawThinking \<noteq> [] then formatReasoningMessage env rawThinking else [])"
  obtain s1 out1 where s1: "fallbackUpdate env cleanedText urls hasMedia s = (s1, out1)"
    by fastforce
  define added where "added = (length (assistantTexts s1) > assistantTextBaseline s1)"
  define s2 where "s2 = finalizeAssistantTexts env ftext added (chunkerHasBuffered env s1) s1"
  define she where "she = (includeReasoning s2 \<and> formattedReasoning \<noteq> []
      \<and> onBlockReply (params env) \<and> Some formattedReasoning \<noteq> lastReasoningSent s2)"
  define before where "before = (she \<and> blockReplyBreak s2 = MessageEnd \<and> \<not> added)"
  obtain s3 out3 where s3: "(if before then maybeEmitReasoning she formattedReasoning s2
      else (s2, [])) = (s3, out3)" by fastforce
  obtain s4 out4 where s4: "finalBlockReply env ftext s3 = (s4, out4)" by fastforce
  obtain s5 out5 where s5: "(if \<not> before then maybeEmitReasoning she formattedReasoning s4
      else (s4, [])) = (s5, out5)" by fastforce
  obtain s6 out6 where s6: "(if streamReasoning s5 \<and> rawThinking \<noteq> []
      then emitReasoningStream env rawThinking s5 else (s5, [])) = (s6, out6)" by fastforce
  obtain s7 out7 where s7: "tailReply env s6 = (s7, out7)" by fastforce
  have e: "handleMessageEnd env msg s
            = (resetAtMessageEnd env s7, out1 @ out3 @ out4 @ out5 @ out6 @ out7)"
    using a c s1 s3 s4 s5 s6 s7
    unfolding handleMessageEnd_def Let_def ftext_def rawThinking_def formattedReasoning_def
      added_def s2_def she_def before_def
    by simp
  have q1: "filter isAssistantUpdate out1 = out1"
    using s1 fallbackUpdate_only_updates[of env cleanedText urls hasMedia s] by simp
  have q3: "filter isAssistantUpdate out3 = []"
    using s3 maybeEmitReasoning_quiet[of she formattedReasoning s2] by (auto split: if_splits)
  have q4: "filter isAssistantUpdate out4 = []"
    using s4 finalBlockReply_quiet[OF q, of ftext s3] by simp
  have q5: "filter isAssistantUpdate out5 = []"
    using s5 maybeEmitReasoning_quiet[of she formattedReasoning s4] by (auto split: if_splits)
  have q6: "filter isAssistantUpdate out6 = []"
    using s6 r[of rawThinking s5] by (auto split: if_splits)
  have q7: "filter isAssistantUpdate out7 = []"
    using s7 tailReply_quiet[of env s6] by simp
  show ?thesis using e s1 q1 q3 q4 q5 q6 q7 by simp
qed

text \<open>Claim C6, as amended. At \<^verbatim>\<open>message_end\<close> of an assistant message, with methods
  of \<^verbatim>\<open>ctx\<close> that send no assistant update of their own: when the flag
  \<^verbatim>\<open>emittedAssistantUpdate\<close> is false and the final cleaned text is non-empty or media
  exist, the assistant updates that \<^verbatim>\<open>handleMessageEnd\<close> sends are exactly one agent event
  with the cleaned text as both \<^verbatim>\<open>text\<close> and \<^verbatim>\<open>delta\<close> (and its copy to
  \<^verbatim>\<open>onAgentEvent\<close>, when that callback is given); when the flag is true, or there is
  neither text nor media, it sends none. A message of only \<^verbatim>\<open>message_start\<close> and
  \<^verbatim>\<open>message_end\<close> with the content \<open>Done\<close> gives one update and one block reply, both
  \<open>Done\<close>.\<close>

theorem fallback_update_at_end:
  assumes "sendsNoUpdate env" and "role msg = ''assistant''"
    and "endCleaned env msg = (cleanedText, urls, hasMedia)"
  shows "filter isAssistantUpdate (snd (handleMessageEnd env msg s))
           = (if \<not> emittedAssistantUpdate s \<and> (cleanedText \<noteq> [] \<or> hasMedia) then
                AgentEvent cleanedText cleanedText (if hasMedia then urls else None)
                # (if onAgentEvent (params env)
                   then [OnAgentEvent cleanedText cleanedText (if hasMedia then urls else None)]
                   else [])
              else [])"
  using handleMessageEnd_updates[OF assms] by (simp add: fallbackUpdate_def Let_def)

theorem fallback_update_at_end_witness:
  "sendsNoUpdate plainEnv
   \<and> role (assistantMessage [''Done'']) = ''assistant''
   \<and> endCleaned plainEnv (assistantMessage [''Done'']) = (''Done'', None, False)
   \<and> \<not> emittedAssistantUpdate (startState MessageEnd)
   \<and> filter isAssistantUpdate
        (snd (handleMessageEnd plainEnv (assistantMessage [''Done'']) (startState MessageEnd)))
       = [AgentEvent ''Done'' ''Done'' None, OnAgentEvent ''Done'' ''Done'' None]
   \<and> emittedAssistantUpdate (afterAState\<lparr>blockReplyBreak := MessageEnd\<rparr>)
   \<and> filter isAssistantUpdate
        (snd (handleMessageEnd plainEnv (assistantMessage [''Done''])
                (afterAState\<lparr>blockReplyBreak := MessageEnd\<rparr>)))
       = []
   \<and> snd (runEvents plainEnv
        [MessageStartEvent ''assistant'', MessageEndEvent (assistantMessage [''Done''])]
        (startState MessageEnd))
       = [AssistantMessageStart, AgentEvent ''Done'' ''Done'' None,
          OnAgentEvent ''Done'' ''Done'' None, BlockReply (textPayload ''Done'')]"
proof -
  have q: "sendsNoUpdate plainEnv" by (simp add: sendsNoUpdate_def plainEnv_def)
  have a: "role (assistantMessage [''Done'']) = ''assistant''" by code_simp
  have c: "endCleaned plainEnv (assistantMessage [''Done'']) = (''Done'', None, False)"
    by code_simp
  have n: "\<not> emittedAssistantUpdate (startState MessageEnd)" by code_simp
  have y: "emittedAssistantUpdate (afterAState\<lparr>blockReplyBreak := MessageEnd\<rparr>)" by code_simp
  have p: "onAgentEvent (params plainEnv)" by code_simp
  have r: "snd (runEvents plainEnv
        [MessageStartEvent ''assistant'', MessageEndEvent (assistantMessage [''Done''])]
        (startState MessageEnd))
       = [AssistantMessageStart, AgentEvent ''Done'' ''Done'' None,
          OnAgentEvent ''Done'' ''Done'' None, BlockReply (textPayload ''Done'')]"
    by code_simp
  have c1: "filter isAssistantUpdate
        (snd (handleMessageEnd plainEnv (assistantMessage [''Done'']) (startState MessageEnd)))
       = [AgentEvent ''Done'' ''Done'' None, OnAgentEvent ''Done'' ''Done'' None]"
    using fallback_update_at_end[OF q a c, of "startState MessageEnd"] n p by simp
  have c2: "filter isAssistantUpdate
        (snd (handleMessageEnd plainEnv (assistantMessage [''Done''])
                (afterAState\<lparr>blockReplyBreak := MessageEnd\<rparr>)))
       = []"
    using fallback_update_at_end[OF q a c, of "afterAState\<lparr>blockReplyBreak := MessageEnd\<rparr>"] y
    by simp
  show ?thesis using q a c n y r c1 c2 by blast
qed

text \<open>The claim as stated has the update sent only when no live update was sent during the
  message. The flag stands for less: a block boundary clears it. After \<open>Hello\<close> was streamed
  and sent in block 0 and an empty block 1 was opened, the end of the message sends \<open>Hello\<close>
  once more, as \<^verbatim>\<open>text\<close> and as \<^verbatim>\<open>delta\<close>.\<close>

theorem fallback_update_at_end_counterexample:
  "agentEventTexts
     (snd (runEvents plainEnv
             [MessageStartEvent ''assistant'',
              MessageUpdateEvent (textDelta ''Hello'' (Some 0)),
              MessageUpdateEvent (textStart (Some 1))]
             (startState MessageEnd)))
     = [''Hello'']
   \<and> filter isAssistantUpdate
       (snd (handleMessageEnd plainEnv (assistantMessage [''Hello'', ''''])
               (fst (runEvents plainEnv
                       [MessageStartEvent ''assistant'',
                        MessageUpdateEvent (textDelta ''Hello'' (Some 0)),
                        MessageUpdateEvent (textStart (Some 1))]
                       (startState MessageEnd)))))
     = [AgentEvent ''Hello'' ''Hello'' None, OnAgentEvent ''Hello'' ''Hello'' None]"
  by code_simp

subsection \<open>The block reply at the end of a message\<close>











end
